theory Spec2Isabelle
  imports Main
begin

section \<open>Text export writer: a shallow embedding of export\_output\_text.cpp\<close>

text \<open>
  The embedded file is \<^verbatim>\<open>Telegram/SourceFiles/export/output/export_output_text.cpp\<close>.
  A \<^verbatim>\<open>QByteArray\<close> (and \<^verbatim>\<open>Data::Utf8String\<close>, which is one) is a \<open>string\<close>, a list of
  bytes; an \<^verbatim>\<open>int\<close> index or counter is an \<open>int\<close>; the field vector
  \<^verbatim>\<open>std::vector<std::pair<QByteArray, QByteArray>>\<close> is a list of pairs.
\<close>

subsection \<open>Bytes and the line terminator\<close>

definition LF :: char where
  "LF = CHR 0x0A"

definition CR :: char where
  "CR = CHR 0x0D"

definition NUL :: char where
  "NUL = CHR 0x00"

text \<open>
  \<^verbatim>\<open>kLineBreak\<close> is chosen at compile time by \<^verbatim>\<open>Q_OS_WIN\<close>: \<^verbatim>\<open>"\r\n"\<close> on Windows,
  \<^verbatim>\<open>"\n"\<close> elsewhere. The platform is a parameter of every function that uses it.
\<close>

datatype platform = Windows | Other

definition kLineBreak :: "platform \<Rightarrow> string" where
  "kLineBreak os = (case os of Windows \<Rightarrow> [CR, LF] | Other \<Rightarrow> [LF])"

subsection \<open>The QByteArray operations the file uses\<close>

text \<open>
  \<^verbatim>\<open>value.indexOf(ch, from)\<close>: the first position at or after \<open>from\<close> that holds
  \<open>ch\<close>, or \<open>-1\<close>. A negative \<open>from\<close> counts from the end, as in Qt.
\<close>

definition indexOf :: "string \<Rightarrow> char \<Rightarrow> int \<Rightarrow> int" where
  "indexOf value ch from =
     (let size = int (length value);
          start = (if from < 0 then max (from + size) 0 else from)
      in case List.find (\<lambda>i. value ! i = ch) [nat start ..< length value] of
           None \<Rightarrow> - 1
         | Some i \<Rightarrow> int i)"

text \<open>
  \<^verbatim>\<open>*(data + i)\<close>: the byte at position \<open>i\<close>. The buffer of a QByteArray ends with a
  NUL byte, which is what position \<open>size\<close> holds. \<^verbatim>\<open>SerializeKeyValue\<close> calls
  \<^verbatim>\<open>SerializeMultiline\<close> with the position of a line feed, so every read is in range; for
  any other position the model returns NUL.
\<close>

definition byteAt :: "string \<Rightarrow> int \<Rightarrow> char" where
  "byteAt value i = (if 0 \<le> i \<and> i < int (length value) then value ! nat i else NUL)"

text \<open>
  \<^verbatim>\<open>appendTo.append(data + offset, len)\<close>: \<open>len\<close> bytes starting at \<open>offset\<close>; a negative
  \<open>len\<close> makes Qt measure the C string, that is, copy up to the first NUL.
\<close>

definition appendData :: "string \<Rightarrow> string \<Rightarrow> int \<Rightarrow> int \<Rightarrow> string" where
  "appendData appendTo value offset len =
     appendTo @
       (if len < 0 then takeWhile (\<lambda>c. c \<noteq> NUL) (drop (nat offset) value)
        else take (nat len) (drop (nat offset) value))"

subsection \<open>SerializeMultiline\<close>

text \<open>
  The \<^verbatim>\<open>do ... while (newline > 0)\<close> loop, one call per iteration. The state is the
  output so far, \<open>offset\<close> and \<open>newline\<close>; the result is the output and the final
  \<open>offset\<close>, which the code after the loop needs.
\<close>

function SerializeMultiline_loop ::
  "platform \<Rightarrow> string \<Rightarrow> string \<Rightarrow> int \<Rightarrow> int \<Rightarrow> string \<times> int" where
  "SerializeMultiline_loop os value appendTo offset newline =
     (let appendTo1 = appendTo @ ''> '';
          win = (newline > 0 \<and> byteAt value (newline - 1) = CR);
          newline1 = (if win then newline - 1 else newline);
          appendTo2 = appendData appendTo1 value offset (newline1 - offset) @ kLineBreak os;
          newline2 = (if win then newline1 + 1 else newline1);
          offset' = newline2 + 1;
          newline' = indexOf value LF offset'
      in if newline' > 0
         then SerializeMultiline_loop os value appendTo2 offset' newline'
         else (appendTo2, offset'))"
  by pat_completeness auto

termination
proof (relation "measure (\<lambda>(os, value, appendTo, offset, newline). nat (int (length value) - newline))",
    goal_cases)
  case 1
  show ?case by simp
next
  case (2 os "value" appendTo offset newline appendTo1 win newline1 appendTo2 newline2 offset' newline')
  have off: "offset' = newline + 1"
    using 2 by (simp split: if_splits)
  have inrange: "indexOf v c i = - 1 \<or> (0 \<le> indexOf v c i \<and> indexOf v c i < int (length v))"
    for v c i
    by (auto simp: indexOf_def Let_def find_Some_iff split: option.splits)
  have atleast: "0 \<le> i \<Longrightarrow> indexOf v c i \<noteq> - 1 \<Longrightarrow> i \<le> indexOf v c i"
    for v c i
    by (auto simp: indexOf_def Let_def find_Some_iff split: option.splits)
  have pos: "0 < newline'" and idx: "newline' = indexOf value LF offset'"
    using 2 by simp_all
  have upper: "newline' < int (length value)"
    using pos idx inrange [of "value" LF offset'] by linarith
  have lower: "newline < 0 \<or> newline + 1 \<le> newline'"
    using pos idx off atleast [of offset' "value" LF] by linarith
  show ?case
    using pos upper lower by auto
qed

declare SerializeMultiline_loop.simps [simp del]

definition SerializeMultiline :: "platform \<Rightarrow> string \<Rightarrow> string \<Rightarrow> int \<Rightarrow> string" where
  "SerializeMultiline os appendTo value newline =
     (case SerializeMultiline_loop os value appendTo 0 newline of
        (appendTo', offset) \<Rightarrow>
          (let size = int (length value)
           in if size > offset
              then appendData (appendTo' @ ''> '') value offset (size - offset) @ kLineBreak os
              else appendTo'))"

subsection \<open>JoinList\<close>

text \<open>
  The \<^verbatim>\<open>while (true)\<close> loop of \<^verbatim>\<open>JoinList\<close>. It is entered with two or more fragments
  and \<open>counter = 0\<close>, so \<^verbatim>\<open>list[counter]\<close> is always in range; for a counter out of range
  the model returns the result as it is. The size computed for \<^verbatim>\<open>reserve\<close> does not
  change the result and is left out.
\<close>

function JoinList_loop :: "string \<Rightarrow> string list \<Rightarrow> string \<Rightarrow> nat \<Rightarrow> string" where
  "JoinList_loop separator list result counter =
     (if counter < length list
      then (let result1 = result @ list ! counter;
                counter1 = counter + 1
            in if counter1 = length list then result1
               else JoinList_loop separator list (result1 @ separator) counter1)
      else result)"
  by pat_completeness auto
termination
  by (relation "measure (\<lambda>(separator, list, result, counter). length list - counter)") auto

declare JoinList_loop.simps [simp del]

definition JoinList :: "string \<Rightarrow> string list \<Rightarrow> string" where
  "JoinList separator list =
     (if list = [] then []
      else if length list = 1 then list ! 0
      else JoinList_loop separator list [] 0)"

subsection \<open>SerializeKeyValue\<close>

type_synonym fields = "(string \<times> string) list"

definition SerializeKeyValue_step :: "platform \<Rightarrow> string \<Rightarrow> string \<times> string \<Rightarrow> string" where
  "SerializeKeyValue_step os result kv =
     (case kv of (key, value) \<Rightarrow>
        if value = [] then result
        else (let result1 = result @ key;
                  newline = indexOf value LF 0
              in if newline \<ge> 0
                 then SerializeMultiline os (result1 @ '':'' @ kLineBreak os) value newline
                 else result1 @ '': '' @ value @ kLineBreak os))"

definition SerializeKeyValue :: "platform \<Rightarrow> fields \<Rightarrow> string" where
  "SerializeKeyValue os values = foldl (SerializeKeyValue_step os) [] values"

subsection \<open>Numbers\<close>

text \<open>
  Modelled from the spec: \<^verbatim>\<open>Data::NumberToString(value, length = 0, filler = '0')\<close> is
  declared in \<^verbatim>\<open>export_data_types.h\<close>, which is not part of the embedded file. The spec
  says that numeric values render as plain decimal and that zero-padded numbers are padded
  with the filler on the left up to the given length.
\<close>

definition digit_char :: "nat \<Rightarrow> char" where
  "digit_char d = ''0123456789'' ! d"

fun decimal :: "nat \<Rightarrow> string" where
  "decimal n =
     (if n < 10 then [digit_char n]
      else decimal (n div 10) @ [digit_char (n mod 10)])"

declare decimal.simps [simp del]

definition NumberToStringFilled :: "int \<Rightarrow> int \<Rightarrow> char \<Rightarrow> string" where
  "NumberToStringFilled n len filler =
     (let result = (if n < 0 then CHR ''-'' # decimal (nat (- n)) else decimal (nat n))
      in replicate (nat len - length result) filler @ result)"

definition NumberToString :: "int \<Rightarrow> string" where
  "NumberToString n = NumberToStringFilled n 0 (CHR ''0'')"

subsection \<open>The data model the serializer reads\<close>

text \<open>
  Modelled from the spec: the records of \<^verbatim>\<open>export_data_types.h\<close>, which is not part
  of the embedded file. Each has the members the embedded file reads, under their names
  in the source (with a prime where the name is reserved). An \<^verbatim>\<open>int32\<close> member is an \<open>int\<close> and an unsigned 64-bit one a \<open>nat\<close>:
  the file does no arithmetic on them. A \<^verbatim>\<open>double\<close> is kept as its bit pattern, since the
  file only hands it to \<^verbatim>\<open>NumberToString\<close>. A \<^verbatim>\<open>QString\<close> is a \<open>string\<close> as well
  (\<^verbatim>\<open>toUtf8()\<close> keeps emptiness).
\<close>

datatype double = DoubleBits nat

type_synonym PeerId = nat

text \<open>
  Modelled from the spec: a file reference has a relative path and a skip reason drawn
  from Unavailable, FileSize, FileType and None.
\<close>

datatype SkipReason = Unavailable | FileSize | FileType | NoSkipReason

record File =
  relativePath :: string
  skipReason :: SkipReason

record Image =
  width :: int
  height :: int
  file' :: File

record Photo =
  image :: Image

record Document =
  file' :: File
  isSticker :: bool
  isVideoMessage :: bool
  isVoiceMessage :: bool
  isAnimated :: bool
  isVideoFile :: bool
  isAudioFile :: bool
  stickerEmoji :: string
  songPerformer :: string
  songTitle :: string
  mime :: string
  duration :: int
  width :: int
  height :: int

record ContactInfo =
  firstName :: string
  lastName :: string
  phoneNumber :: string

record GeoPoint =
  latitude :: double
  longitude :: double
  valid :: bool

record Venue =
  point :: GeoPoint
  title :: string
  address :: string

record Game =
  title :: string
  description :: string
  shortName :: string
  botId :: int

record Invoice =
  title :: string
  description :: string
  currency :: string
  amount :: nat
  receiptMsgId :: int

datatype MediaContent =
    MediaPhoto Photo
  | MediaDocument Document
  | MediaContactInfo ContactInfo
  | MediaGeoPoint GeoPoint
  | MediaVenue Venue
  | MediaGame Game
  | MediaInvoice Invoice
  | UnsupportedMedia
  | NoMedia

record Media =
  content :: MediaContent
  ttl :: int

text \<open>
  Modelled from the spec: the discard reason of a phone call and the type of a secure
  value are enums of an extensible wire format. The recognized values are the ones the
  embedded file has a \<^verbatim>\<open>case\<close> for; one further constructor stands for any value without
  a \<^verbatim>\<open>case\<close>, where the \<^verbatim>\<open>switch\<close> falls through to \<^verbatim>\<open>return ""\<close>.
\<close>

datatype DiscardReason = Busy | Disconnect | Hangup | Missed | UnrecognizedReason

datatype SecureValueType =
    PersonalDetails | Passport | DriverLicense | IdentityCard | InternalPassport
  | Address | UtilityBill | BankStatement | RentalAgreement | PassportRegistration
  | TemporaryRegistration | Phone | Email | UnrecognizedType

text \<open>
  The action variant. The arguments of a constructor are the members the file reads:
  \<^item> \<open>ActionChatCreate title userIds\<close>, \<open>ActionChatEditTitle title\<close>,
    \<open>ActionChatEditPhoto photo\<close>, \<open>ActionChatAddUser userIds\<close>,
    \<open>ActionChatDeleteUser userId\<close>, \<open>ActionChatJoinedByLink inviterId\<close>,
    \<open>ActionChannelCreate title\<close>, \<open>ActionChannelMigrateFrom title\<close>,
    \<open>ActionGameScore score\<close>, \<open>ActionPaymentSent currency amount\<close>,
    \<open>ActionPhoneCall discardReason duration\<close>, \<open>ActionCustomAction message\<close>,
    \<open>ActionBotAllowed domain\<close>, \<open>ActionSecureValuesSent types\<close>;
  \<^item> \<open>NoAction\<close> is \<^verbatim>\<open>base::none_type\<close>.
\<close>

datatype ActionContent =
    ActionChatCreate string "int list"
  | ActionChatEditTitle string
  | ActionChatEditPhoto Photo
  | ActionChatDeletePhoto
  | ActionChatAddUser "int list"
  | ActionChatDeleteUser int
  | ActionChatJoinedByLink int
  | ActionChannelCreate string
  | ActionChatMigrateTo
  | ActionChannelMigrateFrom string
  | ActionPinMessage
  | ActionHistoryClear
  | ActionGameScore int
  | ActionPaymentSent string nat
  | ActionPhoneCall DiscardReason int
  | ActionScreenshotTaken
  | ActionCustomAction string
  | ActionBotAllowed string
  | ActionSecureValuesSent "SecureValueType list"
  | NoAction

record ServiceAction =
  content :: ActionContent

record Message =
  id' :: int
  date :: int
  edited :: int
  fromId :: int
  forwardedFromId :: PeerId
  signature :: string
  replyToMsgId :: int
  viaBotId :: int
  action :: ServiceAction
  media :: Media
  text' :: string

text \<open>
  Modelled from the spec: a peer is a user or a chat and carries a display name, which
  \<^verbatim>\<open>name()\<close> returns; a user has a username and a bot flag, a chat a username and a
  broadcast flag.
\<close>

record User =
  name :: string
  username :: string
  isBot :: bool

record Chat =
  name :: string
  username :: string
  broadcast :: bool

datatype Peer = PeerUser User | PeerChat Chat

definition Peer_user :: "Peer \<Rightarrow> User option" where
  "Peer_user p = (case p of PeerUser u \<Rightarrow> Some u | PeerChat c \<Rightarrow> None)"

definition Peer_chat :: "Peer \<Rightarrow> Chat option" where
  "Peer_chat p = (case p of PeerUser u \<Rightarrow> None | PeerChat c \<Rightarrow> Some c)"

definition Peer_name :: "Peer \<Rightarrow> string" where
  "Peer_name p = (case p of PeerUser u \<Rightarrow> User.name u | PeerChat c \<Rightarrow> Chat.name c)"

text \<open>The default-constructed \<^verbatim>\<open>User()\<close> that a failed lookup returns.\<close>

definition empty_User :: User where
  "empty_User = \<lparr> User.name = [], User.username = [], isBot = False \<rparr>"

text \<open>
  The formatting helpers of \<^verbatim>\<open>export_data_types.h\<close> that the spec treats as external pure
  functions, and the peer id of a user id, are parameters of the model; \<open>DoubleToString\<close>
  is \<^verbatim>\<open>NumberToString\<close> at a \<^verbatim>\<open>double\<close>. So is the outcome
  of the file primitive: \<open>writeSucceeds h path block\<close> says whether appending \<open>block\<close>
  to the file at \<open>path\<close> succeeds.
\<close>

record Helpers =
  FormatDateTime :: "int \<Rightarrow> string"
  FormatMoneyAmount :: "nat \<Rightarrow> string \<Rightarrow> string"
  FormatPhoneNumber :: "string \<Rightarrow> string"
  DoubleToString :: "double \<Rightarrow> string"
  UserPeerId :: "int \<Rightarrow> PeerId"
  writeSucceeds :: "string \<Rightarrow> string \<Rightarrow> bool"

text \<open>
  \<^verbatim>\<open>Expects\<close> and \<^verbatim>\<open>Unexpected\<close> stop the program; in the model they are the two errors.
\<close>

datatype error = ExpectsFailed | UnexpectedReached

subsection \<open>SerializeMessage: the lambdas\<close>

text \<open>
  \<^verbatim>\<open>values\<close> is the local field vector; every lambda that pushes to it takes it and
  returns it updated. A lambda that can stop at an \<^verbatim>\<open>Expects\<close> returns \<open>error + fields\<close>.
\<close>

definition FormatUsername :: "string \<Rightarrow> string" where
  "FormatUsername u = (if u = [] then u else CHR ''@'' # u)"

definition FormatFilePath :: "File \<Rightarrow> string" where
  "FormatFilePath f = relativePath f"

definition peer :: "(PeerId \<rightharpoonup> Peer) \<Rightarrow> PeerId \<Rightarrow> Peer" where
  "peer peers peerId = (case peers peerId of Some p \<Rightarrow> p | None \<Rightarrow> PeerUser empty_User)"

definition user :: "Helpers \<Rightarrow> (PeerId \<rightharpoonup> Peer) \<Rightarrow> int \<Rightarrow> User" where
  "user h peers userId =
     (case Peer_user (peer peers (UserPeerId h userId)) of
        Some result \<Rightarrow> result
      | None \<Rightarrow> empty_User)"

definition push :: "string \<Rightarrow> string \<Rightarrow> fields \<Rightarrow> fields" where
  "push key val values = (if val \<noteq> [] then values @ [(key, val)] else values)"

definition wrapPeerName :: "(PeerId \<rightharpoonup> Peer) \<Rightarrow> PeerId \<Rightarrow> string" where
  "wrapPeerName peers peerId =
     (let result = Peer_name (peer peers peerId)
      in if result = [] then ''(unknown peer)'' else result)"

definition wrapUserName :: "Helpers \<Rightarrow> (PeerId \<rightharpoonup> Peer) \<Rightarrow> int \<Rightarrow> string" where
  "wrapUserName h peers userId =
     (let result = User.name (user h peers userId)
      in if result = [] then ''(unknown user)'' else result)"

definition pushFrom :: "Helpers \<Rightarrow> (PeerId \<rightharpoonup> Peer) \<Rightarrow> Message \<Rightarrow> string \<Rightarrow> fields \<Rightarrow> fields" where
  "pushFrom h peers message label values =
     (if fromId message \<noteq> 0 then push label (wrapUserName h peers (fromId message)) values
      else values)"

definition pushReplyToMsgId :: "Message \<Rightarrow> string \<Rightarrow> fields \<Rightarrow> fields" where
  "pushReplyToMsgId message label values =
     (if replyToMsgId message \<noteq> 0
      then push label (''ID-'' @ NumberToString (replyToMsgId message)) values
      else values)"

definition pushUserNames ::
  "Helpers \<Rightarrow> (PeerId \<rightharpoonup> Peer) \<Rightarrow> int list \<Rightarrow> string \<Rightarrow> string \<Rightarrow> fields \<Rightarrow> fields" where
  "pushUserNames h peers data labelOne labelMany values =
     (let list = map (wrapUserName h peers) data
      in if length list = 1 then push labelOne (list ! 0) values
         else if list \<noteq> [] then push labelMany (JoinList '', '' list) values
         else values)"

definition pushActor :: "Helpers \<Rightarrow> (PeerId \<rightharpoonup> Peer) \<Rightarrow> Message \<Rightarrow> fields \<Rightarrow> fields" where
  "pushActor h peers message values = pushFrom h peers message ''Actor'' values"

definition pushAction :: "string \<Rightarrow> fields \<Rightarrow> fields" where
  "pushAction act values = push ''Action'' act values"

definition pushTTL :: "Message \<Rightarrow> string \<Rightarrow> fields \<Rightarrow> fields" where
  "pushTTL message label values =
     (let ttl' = Media.ttl (media message)
      in if ttl' \<noteq> 0 then push label (NumberToString ttl' @ '' sec.'') values else values)"

text \<open>
  The value \<^verbatim>\<open>pushPath\<close> pushes. The \<^verbatim>\<open>switch\<close> has a \<^verbatim>\<open>case\<close> for each of the four
  skip reasons, so the \<^verbatim>\<open>Unexpected\<close> after it is not reached.
\<close>

definition pathText :: "File \<Rightarrow> string \<Rightarrow> string" where
  "pathText f name' =
     (let pre = (if name' = [] then [] else name' @ '' '')
      in case skipReason f of
           Unavailable \<Rightarrow> pre @ ''(file unavailable)''
         | FileSize \<Rightarrow> pre @ ''(file too large)''
         | FileType \<Rightarrow> pre @ ''(file skipped)''
         | NoSkipReason \<Rightarrow> FormatFilePath f)"

definition pushPath :: "File \<Rightarrow> string \<Rightarrow> string \<Rightarrow> fields \<Rightarrow> error + fields" where
  "pushPath f label name' values =
     (if \<not> (relativePath f \<noteq> [] \<or> skipReason f \<noteq> NoSkipReason) then Inl ExpectsFailed
      else Inr (push label (pathText f name') values))"

definition pushPhoto :: "Image \<Rightarrow> fields \<Rightarrow> error + fields" where
  "pushPhoto img values =
     (case pushPath (Image.file' img) ''Photo'' [] values of
        Inl e \<Rightarrow> Inl e
      | Inr values1 \<Rightarrow>
          if Image.width img \<noteq> 0 \<and> Image.height img \<noteq> 0
          then Inr (push ''Height'' (NumberToString (Image.height img))
                 (push ''Width'' (NumberToString (Image.width img)) values1))
          else Inr values1)"

definition discardReasonText :: "DiscardReason \<Rightarrow> string" where
  "discardReasonText reason =
     (case reason of
        Busy \<Rightarrow> ''Busy''
      | Disconnect \<Rightarrow> ''Disconnect''
      | Hangup \<Rightarrow> ''Hangup''
      | Missed \<Rightarrow> ''Missed''
      | UnrecognizedReason \<Rightarrow> [])"

definition secureValueTypeText :: "SecureValueType \<Rightarrow> string" where
  "secureValueTypeText t =
     (case t of
        PersonalDetails \<Rightarrow> ''Personal details''
      | Passport \<Rightarrow> ''Passport''
      | DriverLicense \<Rightarrow> ''Driver license''
      | IdentityCard \<Rightarrow> ''Identity card''
      | InternalPassport \<Rightarrow> ''Internal passport''
      | Address \<Rightarrow> ''Address information''
      | UtilityBill \<Rightarrow> ''Utility bill''
      | BankStatement \<Rightarrow> ''Bank statement''
      | RentalAgreement \<Rightarrow> ''Rental agreement''
      | PassportRegistration \<Rightarrow> ''Passport registration''
      | TemporaryRegistration \<Rightarrow> ''Temporary registration''
      | Phone \<Rightarrow> ''Phone number''
      | Email \<Rightarrow> ''Email''
      | UnrecognizedType \<Rightarrow> [])"

subsection \<open>SerializeMessage: the action match\<close>

definition pushActionContent ::
  "Helpers \<Rightarrow> (PeerId \<rightharpoonup> Peer) \<Rightarrow> Message \<Rightarrow> fields \<Rightarrow> error + fields" where
  "pushActionContent h peers message values =
     (case ServiceAction.content (action message) of
        ActionChatCreate data_title userIds \<Rightarrow>
          (let values = pushActor h peers message values;
               values = pushAction ''Create group'' values;
               values = push ''Title'' data_title values;
               values = pushUserNames h peers userIds ''Member'' ''Members'' values
           in Inr values)
      | ActionChatEditTitle data_title \<Rightarrow>
          (let values = pushActor h peers message values;
               values = pushAction ''Edit group title'' values;
               values = push ''New title'' data_title values
           in Inr values)
      | ActionChatEditPhoto photo \<Rightarrow>
          (let values = pushActor h peers message values;
               values = pushAction ''Edit group photo'' values
           in pushPhoto (image photo) values)
      | ActionChatDeletePhoto \<Rightarrow>
          (let values = pushActor h peers message values;
               values = pushAction ''Delete group photo'' values
           in Inr values)
      | ActionChatAddUser userIds \<Rightarrow>
          (let values = pushActor h peers message values;
               values = pushAction ''Invite members'' values;
               values = pushUserNames h peers userIds ''Member'' ''Members'' values
           in Inr values)
      | ActionChatDeleteUser userId \<Rightarrow>
          (let values = pushActor h peers message values;
               values = pushAction ''Remove members'' values;
               values = push ''Member'' (wrapUserName h peers userId) values
           in Inr values)
      | ActionChatJoinedByLink inviterId \<Rightarrow>
          (let values = pushActor h peers message values;
               values = pushAction ''Join group by link'' values;
               values = push ''Inviter'' (wrapUserName h peers inviterId) values
           in Inr values)
      | ActionChannelCreate data_title \<Rightarrow>
          (let values = pushActor h peers message values;
               values = pushAction ''Create channel'' values;
               values = push ''Title'' data_title values
           in Inr values)
      | ActionChatMigrateTo \<Rightarrow>
          (let values = pushActor h peers message values;
               values = pushAction ''Migrate this group to supergroup'' values
           in Inr values)
      | ActionChannelMigrateFrom data_title \<Rightarrow>
          (let values = pushActor h peers message values;
               values = pushAction ''Migrate this supergroup from group'' values;
               values = push ''Title'' data_title values
           in Inr values)
      | ActionPinMessage \<Rightarrow>
          (let values = pushActor h peers message values;
               values = pushAction ''Pin message'' values;
               values = pushReplyToMsgId message ''Message'' values
           in Inr values)
      | ActionHistoryClear \<Rightarrow>
          (let values = pushActor h peers message values;
               values = pushAction ''Clear history'' values
           in Inr values)
      | ActionGameScore score \<Rightarrow>
          (let values = pushActor h peers message values;
               values = pushAction ''Score in a game'' values;
               values = pushReplyToMsgId message ''Game message'' values;
               values = push ''Score'' (NumberToString score) values
           in Inr values)
      | ActionPaymentSent data_currency data_amount \<Rightarrow>
          (let values = pushAction ''Send payment'' values;
               values = push ''Amount'' (FormatMoneyAmount h data_amount data_currency) values;
               values = pushReplyToMsgId message ''Invoice message'' values
           in Inr values)
      | ActionPhoneCall discardReason data_duration \<Rightarrow>
          (let values = pushActor h peers message values;
               values = pushAction ''Phone call'' values;
               values = (if data_duration \<noteq> 0
                         then push ''Duration'' (NumberToString data_duration @ '' sec.'') values
                         else values);
               values = push ''Discard reason'' (discardReasonText discardReason) values
           in Inr values)
      | ActionScreenshotTaken \<Rightarrow>
          (let values = pushActor h peers message values;
               values = pushAction ''Take screenshot'' values
           in Inr values)
      | ActionCustomAction msg \<Rightarrow>
          (let values = pushActor h peers message values;
               values = push ''Information'' msg values
           in Inr values)
      | ActionBotAllowed domain \<Rightarrow>
          (let values = pushAction ''Allow sending messages'' values;
               values = push ''Reason'' (''Login on '' @ [CHR 0x22] @ domain @ [CHR 0x22]) values
           in Inr values)
      | ActionSecureValuesSent types \<Rightarrow>
          (let values = pushAction ''Send Telegram Passport values'' values;
               list = map secureValueTypeText types;
               values = (if length list = 1 then push ''Value'' (list ! 0) values
                         else if list \<noteq> [] then push ''Values'' (JoinList '', '' list) values
                         else values)
           in Inr values)
      | NoAction \<Rightarrow> Inr values)"

subsection \<open>SerializeMessage: the fields after the action, and the media match\<close>

text \<open>The block guarded by \<^verbatim>\<open>if (!message.action.content)\<close>.\<close>

definition pushUnlessAction ::
  "Helpers \<Rightarrow> (PeerId \<rightharpoonup> Peer) \<Rightarrow> Message \<Rightarrow> fields \<Rightarrow> fields" where
  "pushUnlessAction h peers message values =
     (if ServiceAction.content (action message) = NoAction
      then (let values = pushFrom h peers message ''From'' values;
                values = push ''Author'' (signature message) values;
                values = (if forwardedFromId message \<noteq> 0
                          then push ''Forwarded from''
                                 (wrapPeerName peers (forwardedFromId message)) values
                          else values);
                values = pushReplyToMsgId message ''Reply to message'' values;
                values = (if viaBotId message \<noteq> 0
                          then push ''Via'' (User.username (user h peers (viaBotId message))) values
                          else values)
            in values)
      else values)"

text \<open>
  The \<^verbatim>\<open>Document\<close> handler: first the \<^verbatim>\<open>if\<close>/\<^verbatim>\<open>else if\<close> chain over the kind of the
  document (\<^verbatim>\<open>pushMyPath\<close> is \<^verbatim>\<open>pushPath\<close> on the document's file), then the statements
  after it.
\<close>

definition pushDocumentKind :: "Document \<Rightarrow> fields \<Rightarrow> error + fields" where
  "pushDocumentKind data values =
     (if isSticker data
      then (case pushPath (Document.file' data) ''Sticker'' [] values of
              Inl e \<Rightarrow> Inl e
            | Inr values \<Rightarrow> Inr (push ''Emoji'' (stickerEmoji data) values))
      else if isVideoMessage data
      then pushPath (Document.file' data) ''Video message'' [] values
      else if isVoiceMessage data
      then pushPath (Document.file' data) ''Voice message'' [] values
      else if isAnimated data
      then pushPath (Document.file' data) ''Animation'' [] values
      else if isVideoFile data
      then pushPath (Document.file' data) ''Video file'' [] values
      else if isAudioFile data
      then (case pushPath (Document.file' data) ''Audio file'' [] values of
              Inl e \<Rightarrow> Inl e
            | Inr values \<Rightarrow>
                Inr (push ''Title'' (songTitle data)
                  (push ''Performer'' (songPerformer data) values)))
      else pushPath (Document.file' data) ''File'' [] values)"

definition pushDocument :: "Message \<Rightarrow> Document \<Rightarrow> fields \<Rightarrow> error + fields" where
  "pushDocument message data values =
     (case pushDocumentKind data values of
        Inl e \<Rightarrow> Inl e
      | Inr values \<Rightarrow>
          (let values = (if \<not> isSticker data then push ''Mime type'' (mime data) values
                         else values);
               values = (if Document.duration data \<noteq> 0
                         then push ''Duration''
                                (NumberToString (Document.duration data) @ '' sec.'') values
                         else values);
               values = (if Document.width data \<noteq> 0 \<and> Document.height data \<noteq> 0
                         then push ''Height'' (NumberToString (Document.height data))
                                (push ''Width'' (NumberToString (Document.width data)) values)
                         else values);
               values = pushTTL message ''Self destruct period'' values
           in Inr values))"

definition pushMediaContent ::
  "Helpers \<Rightarrow> platform \<Rightarrow> (PeerId \<rightharpoonup> Peer) \<Rightarrow> string \<Rightarrow> Message \<Rightarrow> fields \<Rightarrow> error + fields" where
  "pushMediaContent h os peers internalLinksDomain message values =
     (case Media.content (media message) of
        MediaPhoto photo \<Rightarrow>
          (case pushPhoto (image photo) values of
             Inl e \<Rightarrow> Inl e
           | Inr values \<Rightarrow> Inr (pushTTL message ''Self destruct period'' values))
      | MediaDocument data \<Rightarrow> pushDocument message data values
      | MediaContactInfo data \<Rightarrow>
          Inr (push ''Contact information''
                (SerializeKeyValue os
                   [(''First name'', firstName data),
                    (''Last name'', lastName data),
                    (''Phone number'', FormatPhoneNumber h (phoneNumber data))])
                values)
      | MediaGeoPoint data \<Rightarrow>
          (let values = push ''Location''
                 (if valid data
                  then SerializeKeyValue os
                         [(''Latitude'', DoubleToString h (latitude data)),
                          (''Longitude'', DoubleToString h (longitude data))]
                  else ''(empty value)'')
                 values;
               values = pushTTL message ''Live location period'' values
           in Inr values)
      | MediaVenue data \<Rightarrow>
          (let values = push ''Place name'' (Venue.title data) values;
               values = push ''Address'' (address data) values;
               values = (if valid (point data)
                         then push ''Location''
                                (SerializeKeyValue os
                                   [(''Latitude'', DoubleToString h (latitude (point data))),
                                    (''Longitude'', DoubleToString h (longitude (point data)))])
                                values
                         else values)
           in Inr values)
      | MediaGame data \<Rightarrow>
          (let values = push ''Game'' (Game.title data) values;
               values = push ''Description'' (Game.description data) values;
               values = (if botId data \<noteq> 0 \<and> shortName data \<noteq> []
                         then (let bot = user h peers (botId data)
                               in if isBot bot \<and> User.username bot \<noteq> []
                                  then push ''Link''
                                         (internalLinksDomain @ User.username bot
                                            @ ''?game='' @ shortName data)
                                         values
                                  else values)
                         else values)
           in Inr values)
      | MediaInvoice data \<Rightarrow>
          Inr (push ''Invoice''
                (SerializeKeyValue os
                   [(''Title'', Invoice.title data),
                    (''Description'', Invoice.description data),
                    (''Amount'', FormatMoneyAmount h (amount data) (currency data)),
                    (''Receipt message'',
                       (if receiptMsgId data \<noteq> 0
                        then ''ID-'' @ NumberToString (receiptMsgId data)
                        else []))])
                values)
      | UnsupportedMedia \<Rightarrow> Inl UnexpectedReached
      | NoMedia \<Rightarrow> Inr values)"

subsection \<open>SerializeMessage\<close>

text \<open>
  \<open>MessageValues\<close> is the vector \<^verbatim>\<open>values\<close> as it stands at the last line of
  \<^verbatim>\<open>SerializeMessage\<close>, when it is handed to \<^verbatim>\<open>SerializeKeyValue\<close>.
\<close>

definition MessageValues ::
  "Helpers \<Rightarrow> platform \<Rightarrow> Message \<Rightarrow> (PeerId \<rightharpoonup> Peer) \<Rightarrow> string \<Rightarrow> error + fields" where
  "MessageValues h os message peers internalLinksDomain =
     (let values = [(''ID'', NumberToString (id' message)),
                    (''Date'', FormatDateTime h (date message)),
                    (''Edited'', FormatDateTime h (edited message))]
      in case pushActionContent h peers message values of
           Inl e \<Rightarrow> Inl e
         | Inr values \<Rightarrow>
             (let values = pushUnlessAction h peers message values
              in case pushMediaContent h os peers internalLinksDomain message values of
                   Inl e \<Rightarrow> Inl e
                 | Inr values \<Rightarrow> Inr (push ''Text'' (text' message) values)))"

definition UnsupportedNotice :: string where
  "UnsupportedNotice =
     ''Error! This message is not supported '' @
     ''by this version of Telegram Desktop. '' @
     ''Please update the application.''"

definition SerializeMessage ::
  "Helpers \<Rightarrow> platform \<Rightarrow> Message \<Rightarrow> (PeerId \<rightharpoonup> Peer) \<Rightarrow> string \<Rightarrow> error + string" where
  "SerializeMessage h os message peers internalLinksDomain =
     (if Media.content (media message) = UnsupportedMedia then Inr UnsupportedNotice
      else case MessageValues h os message peers internalLinksDomain of
             Inl e \<Rightarrow> Inl e
           | Inr values \<Rightarrow> Inr (SerializeKeyValue os values))"

subsection \<open>The writer: files and state\<close>

text \<open>
  Modelled from the spec: the output \<^verbatim>\<open>File\<close> of \<^verbatim>\<open>export_output_file.h\<close> is not part of
  the embedded file. It is an open-append-close primitive that reports success or failure.
  A handle holds its path and the bytes written through it; \<^verbatim>\<open>empty()\<close> says that nothing
  has been written yet, and \<^verbatim>\<open>writeBlock\<close> appends the block when the write succeeds.
\<close>

datatype Result = Success | IoFailure

record OutputFile =
  path :: string
  written :: string

definition OutputFile_empty :: "OutputFile \<Rightarrow> bool" where
  "OutputFile_empty f = (written f = [])"

definition writeBlock :: "Helpers \<Rightarrow> OutputFile \<Rightarrow> string \<Rightarrow> Result \<times> OutputFile" where
  "writeBlock h f block =
     (if writeSucceeds h (OutputFile.path f) block
      then (Success, f\<lparr>written := written f @ block\<rparr>)
      else (IoFailure, f))"

record Settings =
  path :: string
  internalLinksDomain :: string

datatype DialogType =
  Unknown | Personal | Bot | PrivateGroup | PublicGroup | PrivateChannel | PublicChannel

record DialogInfo =
  type' :: DialogType
  name :: string
  relativePath :: string
  onlyMyMessages :: bool

record DialogsInfo =
  list :: "DialogInfo list"

record MessagesSlice =
  list :: "Message list"
  peers :: "PeerId \<rightharpoonup> Peer"

text \<open>
  The members of \<^verbatim>\<open>TextWriter\<close> that the chat functions use; \<open>m_chat\<close> is \<^verbatim>\<open>_chat\<close>, and
  \<open>None\<close> is \<^verbatim>\<open>nullptr\<close>. The counters are 32-bit \<^verbatim>\<open>int\<close>s. Where the source assigns a
  \<^verbatim>\<open>size_t\<close> to one of them (\<^verbatim>\<open>_dialogsCount = data.list.size()\<close>) or adds one to it
  (\<^verbatim>\<open>_messagesCount += data.list.size()\<close>, computed in \<^verbatim>\<open>size_t\<close> and converted back), the
  value is reduced to the 32-bit two's-complement range; \<open>int32_wrap\<close> is that
  conversion. \<^verbatim>\<open>++_dialogIndex\<close> and \<^verbatim>\<open>_dialogsCount - 1\<close> stand behind
  \<^verbatim>\<open>Expects(_dialogIndex < _dialogsCount)\<close>, so they cannot leave the range.
\<close>

definition int32_wrap :: "int \<Rightarrow> int" where
  "int32_wrap x = (x + 2147483648) mod 4294967296 - 2147483648"

record TextWriter =
  m_settings :: Settings
  m_summary :: "OutputFile option"
  m_chats :: "OutputFile option"
  m_chat :: "OutputFile option"
  m_messagesCount :: int
  m_dialogIndex :: int
  m_dialogsCount :: int
  m_dialog :: DialogInfo

definition pathWithRelativePath :: "TextWriter \<Rightarrow> string \<Rightarrow> string" where
  "pathWithRelativePath w p = Settings.path (m_settings w) @ p"

definition fileWithRelativePath :: "TextWriter \<Rightarrow> string \<Rightarrow> OutputFile" where
  "fileWithRelativePath w p = \<lparr> OutputFile.path = pathWithRelativePath w p, written = [] \<rparr>"

subsection \<open>The writer: the chat functions\<close>

definition writeChatsStart ::
  "Helpers \<Rightarrow> platform \<Rightarrow> TextWriter \<Rightarrow> DialogsInfo \<Rightarrow> string \<Rightarrow> string
     \<Rightarrow> error + (Result \<times> TextWriter)" where
  "writeChatsStart h os w data listName fileName =
     (case m_summary w of
        None \<Rightarrow> Inl ExpectsFailed
      | Some summary \<Rightarrow>
          if m_chats w \<noteq> None then Inl ExpectsFailed
          else if DialogsInfo.list data = [] then Inr (Success, w)
          else (let w1 = w\<lparr> m_chats := Some (fileWithRelativePath w fileName),
                               m_dialogIndex := 0,
                               m_dialogsCount :=
                                 int32_wrap (int (length (DialogsInfo.list data))) \<rparr>;
                    header = listName @ '' '' @
                      ''('' @ NumberToString (int (length (DialogsInfo.list data))) @ '') - '' @
                      fileName @ kLineBreak os @ kLineBreak os
                in case writeBlock h summary header of
                     (r, summary') \<Rightarrow> Inr (r, w1\<lparr> m_summary := Some summary' \<rparr>)))"

text \<open>
  The two locals of \<^verbatim>\<open>writeChatStart\<close>: \<^verbatim>\<open>digits\<close>, the width of the sequence number, and
  \<^verbatim>\<open>number\<close>, the sequence number padded to it. \<^verbatim>\<open>++_dialogIndex\<close> yields the incremented
  index.
\<close>

definition writeChatStart_digits :: "TextWriter \<Rightarrow> int" where
  "writeChatStart_digits w = int (length (NumberToString (m_dialogsCount w - 1)))"

definition writeChatStart_number :: "TextWriter \<Rightarrow> string" where
  "writeChatStart_number w =
     NumberToStringFilled (m_dialogIndex w + 1) (writeChatStart_digits w) (CHR ''0'')"

definition writeChatStart :: "TextWriter \<Rightarrow> DialogInfo \<Rightarrow> error + (Result \<times> TextWriter)" where
  "writeChatStart w data =
     (if m_chat w \<noteq> None then Inl ExpectsFailed
      else if \<not> m_dialogIndex w < m_dialogsCount w then Inl ExpectsFailed
      else (let digits = writeChatStart_digits w;
                number = writeChatStart_number w
            in Inr (Success,
                 w\<lparr> m_dialogIndex := m_dialogIndex w + 1,
                    m_chat := Some (fileWithRelativePath w
                                 (DialogInfo.relativePath data @ ''messages.txt'')),
                    m_messagesCount := 0,
                    m_dialog := data \<rparr>)))"

text \<open>The \<^verbatim>\<open>for\<close> loop of \<^verbatim>\<open>writeChatSlice\<close>; the first message that fails stops it.\<close>

fun SerializeMessages ::
  "Helpers \<Rightarrow> platform \<Rightarrow> (PeerId \<rightharpoonup> Peer) \<Rightarrow> string \<Rightarrow> Message list \<Rightarrow> error + string list" where
  "SerializeMessages h os ps linksDomain [] = Inr []"
| "SerializeMessages h os ps linksDomain (message # rest) =
     (case SerializeMessage h os message ps linksDomain of
        Inl e \<Rightarrow> Inl e
      | Inr block \<Rightarrow>
          (case SerializeMessages h os ps linksDomain rest of
             Inl e \<Rightarrow> Inl e
           | Inr blocks \<Rightarrow> Inr (block # blocks)))"

definition writeChatSlice ::
  "Helpers \<Rightarrow> platform \<Rightarrow> TextWriter \<Rightarrow> MessagesSlice \<Rightarrow> error + (Result \<times> TextWriter)" where
  "writeChatSlice h os w data =
     (case m_chat w of
        None \<Rightarrow> Inl ExpectsFailed
      | Some chat \<Rightarrow>
          if MessagesSlice.list data = [] then Inl ExpectsFailed
          else (let w1 = w\<lparr> m_messagesCount :=
                              int32_wrap (m_messagesCount w
                                          + int (length (MessagesSlice.list data))) \<rparr>
                in case SerializeMessages h os (peers data)
                          (internalLinksDomain (m_settings w)) (MessagesSlice.list data) of
                     Inl e \<Rightarrow> Inl e
                   | Inr blocks \<Rightarrow>
                       (let full = (if OutputFile_empty chat
                                    then JoinList (kLineBreak os) blocks
                                    else kLineBreak os @ JoinList (kLineBreak os) blocks)
                        in case writeBlock h chat full of
                             (r, chat') \<Rightarrow> Inr (r, w1\<lparr> m_chat := Some chat' \<rparr>))))"

text \<open>
  The two lambdas of \<^verbatim>\<open>writeChatEnd\<close>. Each \<^verbatim>\<open>switch\<close> has a \<^verbatim>\<open>case\<close> for every dialog
  type, so the \<^verbatim>\<open>Unexpected\<close> after it is not reached.
\<close>

definition TypeString :: "DialogType \<Rightarrow> string" where
  "TypeString t =
     (case t of
        Unknown \<Rightarrow> ''(unknown)''
      | Personal \<Rightarrow> ''Personal chat''
      | Bot \<Rightarrow> ''Bot chat''
      | PrivateGroup \<Rightarrow> ''Private group''
      | PublicGroup \<Rightarrow> ''Public group''
      | PrivateChannel \<Rightarrow> ''Private channel''
      | PublicChannel \<Rightarrow> ''Public channel'')"

definition NameString :: "string \<Rightarrow> DialogType \<Rightarrow> string" where
  "NameString name' t =
     (if name' \<noteq> [] then name'
      else case t of
             Unknown \<Rightarrow> ''(unknown)''
           | Personal \<Rightarrow> ''(deleted user)''
           | Bot \<Rightarrow> ''(deleted bot)''
           | PrivateGroup \<Rightarrow> ''(deleted group)''
           | PublicGroup \<Rightarrow> ''(deleted group)''
           | PrivateChannel \<Rightarrow> ''(deleted channel)''
           | PublicChannel \<Rightarrow> ''(deleted channel)'')"

text \<open>The field list that \<^verbatim>\<open>writeChatEnd\<close> hands to \<^verbatim>\<open>SerializeKeyValue\<close>.\<close>

definition writeChatEnd_values :: "TextWriter \<Rightarrow> fields" where
  "writeChatEnd_values w =
     [(''Name'', NameString (DialogInfo.name (m_dialog w)) (type' (m_dialog w))),
      (''Type'', TypeString (type' (m_dialog w))),
      ((if onlyMyMessages (m_dialog w) then ''Outgoing messages count''
        else ''Messages count''),
       NumberToString (m_messagesCount w)),
      (''Content'',
       (if m_messagesCount w > 0
        then DialogInfo.relativePath (m_dialog w) @ ''messages.txt''
        else []))]"

definition writeChatEnd ::
  "Helpers \<Rightarrow> platform \<Rightarrow> TextWriter \<Rightarrow> error + (Result \<times> TextWriter)" where
  "writeChatEnd h os w =
     (case m_chats w of
        None \<Rightarrow> Inl ExpectsFailed
      | Some chats \<Rightarrow>
          if m_chat w = None then Inl ExpectsFailed
          else (let w1 = w\<lparr> m_chat := None \<rparr>
                in case writeBlock h chats
                          (SerializeKeyValue os (writeChatEnd_values w1) @ kLineBreak os) of
                     (r, chats') \<Rightarrow> Inr (r, w1\<lparr> m_chats := Some chats' \<rparr>)))"

definition writeChatsEnd :: "TextWriter \<Rightarrow> error + (Result \<times> TextWriter)" where
  "writeChatsEnd w =
     (if m_chats w = None then Inl ExpectsFailed
      else Inr (Success, w\<lparr> m_chats := None \<rparr>))"

section \<open>Notions used to state the properties\<close>

text \<open>
  The lines of a value, as the spec describes them: the value is split at every line
  feed, and a line that a line feed ends loses one carriage return in front of that line
  feed. What follows the last line feed is a line of its own; a value that ends with a
  line feed has no further line after it.
\<close>

definition strip_cr :: "string \<Rightarrow> string" where
  "strip_cr line = (if line \<noteq> [] \<and> last line = CR then butlast line else line)"

fun lines_acc :: "string \<Rightarrow> string \<Rightarrow> string list" where
  "lines_acc cur [] = (if cur = [] then [] else [cur])"
| "lines_acc cur (c # cs) =
     (if c = LF then strip_cr cur # lines_acc [] cs else lines_acc (cur @ [c]) cs)"

definition spec_value_lines :: "string \<Rightarrow> string list" where
  "spec_value_lines v = lines_acc [] v"

text \<open>Every line prefixed with \<open>"> "\<close> and ended by the line terminator.\<close>

definition quoted_lines :: "platform \<Rightarrow> string list \<Rightarrow> string" where
  "quoted_lines os ls = concat (map (\<lambda>l. ''> '' @ l @ kLineBreak os) ls)"

text \<open>The statements of \<^verbatim>\<open>SerializeMultiline\<close> after its loop, applied to the loop's result.\<close>

definition finish :: "platform \<Rightarrow> string \<Rightarrow> string \<times> int \<Rightarrow> string" where
  "finish os v p = (case p of (a, off) \<Rightarrow>
      if int (length v) > off
      then appendData (a @ ''> '') v off (int (length v) - off) @ kLineBreak os
      else a)"

text \<open>What one pair contributes to the output of \<^verbatim>\<open>SerializeKeyValue\<close>.\<close>

definition line_group :: "platform \<Rightarrow> string \<Rightarrow> string \<Rightarrow> string" where
  "line_group os key v =
     (if v = [] then []
      else if LF \<in> set v then key @ '':'' @ kLineBreak os @ quoted_lines os (spec_value_lines v)
      else key @ '': '' @ v @ kLineBreak os)"

text \<open>The number of line breaks a value contains: its line feeds, wherever they stand.\<close>

definition line_breaks :: "string \<Rightarrow> nat" where
  "line_breaks v = length (filter (\<lambda>c. c = LF) v)"

text \<open>The fragments with the separator between consecutive ones.\<close>

fun joined :: "string \<Rightarrow> string list \<Rightarrow> string" where
  "joined sep [] = []"
| "joined sep [x] = x"
| "joined sep (x # y # ys) = x @ sep @ joined sep (y # ys)"

text \<open>The number of decimal digits of a natural number.\<close>

fun digit_count :: "nat \<Rightarrow> nat" where
  "digit_count n = (if n < 10 then 1 else 1 + digit_count (n div 10))"

declare digit_count.simps [simp del]

text \<open>The fields \<open>vs\<close> in front of the fields of a result, an error left as it is.\<close>

definition after :: "fields \<Rightarrow> error + fields \<Rightarrow> error + fields" where
  "after vs r = (case r of Inl e \<Rightarrow> Inl e | Inr d \<Rightarrow> Inr (vs @ d))"

text \<open>The three entries \<^verbatim>\<open>values\<close> is initialized with.\<close>

definition base_fields :: "Helpers \<Rightarrow> Message \<Rightarrow> fields" where
  "base_fields h m =
     [(''ID'', NumberToString (id' m)),
      (''Date'', FormatDateTime h (date m)),
      (''Edited'', FormatDateTime h (edited m))]"

text \<open>The keys of a field list, and the keys the action and media handlers can push.\<close>

definition keys :: "fields \<Rightarrow> string set" where
  "keys vs = fst ` set vs"

definition action_keys :: "string set" where
  "action_keys = {''Actor'', ''Action'', ''Title'', ''Member'', ''Members'', ''New title'',
     ''Photo'', ''Width'', ''Height'', ''Inviter'', ''Message'', ''Game message'', ''Score'',
     ''Amount'', ''Invoice message'', ''Duration'', ''Discard reason'', ''Information'',
     ''Reason'', ''Value'', ''Values''}"

definition media_keys :: "string set" where
  "media_keys = {''Photo'', ''Width'', ''Height'', ''Self destruct period'', ''Sticker'',
     ''Emoji'', ''Video message'', ''Voice message'', ''Animation'', ''Video file'',
     ''Audio file'', ''Performer'', ''Title'', ''File'', ''Mime type'', ''Duration'',
     ''Contact information'', ''Location'', ''Live location period'', ''Place name'',
     ''Address'', ''Game'', ''Description'', ''Link'', ''Invoice''}"

text \<open>
  The action kinds whose handler calls \<^verbatim>\<open>pushActor\<close>: all but payment-sent, bot-allowed
  and secure-values-sent (and the absent action, which has no handler).
\<close>

definition emitsActor :: "ActionContent \<Rightarrow> bool" where
  "emitsActor c =
     (case c of
        ActionPaymentSent cur am \<Rightarrow> False
      | ActionBotAllowed d \<Rightarrow> False
      | ActionSecureValuesSent ts \<Rightarrow> False
      | NoAction \<Rightarrow> False
      | _ \<Rightarrow> True)"

text \<open>The keys of the block guarded by \<^verbatim>\<open>if (!message.action.content)\<close>.\<close>

definition unless_keys :: "string set" where
  "unless_keys = {''From'', ''Author'', ''Forwarded from'', ''Reply to message'', ''Via''}"

text \<open>Concrete helpers, a message and a peer table, for the examples.\<close>

definition example_Helpers :: Helpers where
  "example_Helpers =
     \<lparr> FormatDateTime = (\<lambda>t. if t = 0 then [] else NumberToString t),
       FormatMoneyAmount = (\<lambda>a c. NumberToString (int a) @ '' '' @ c),
       FormatPhoneNumber = (\<lambda>p. p),
       DoubleToString = (\<lambda>d. case d of DoubleBits b \<Rightarrow> NumberToString (int b)),
       UserPeerId = (\<lambda>u. nat u),
       writeSucceeds = (\<lambda>p b. True) \<rparr>"

definition example_Message :: Message where
  "example_Message =
     \<lparr> id' = 1, date = 0, edited = 0, fromId = 5, forwardedFromId = 0, signature = [],
       replyToMsgId = 0, viaBotId = 0,
       action = \<lparr> ServiceAction.content = NoAction \<rparr>,
       media = \<lparr> Media.content = NoMedia, ttl = 0 \<rparr>,
       text' = ''hi'' \<rparr>"

definition example_peers :: "PeerId \<rightharpoonup> Peer" where
  "example_peers =
     [5 \<mapsto> PeerUser \<lparr> User.name = ''Alice'', User.username = ''alice'', isBot = False \<rparr>]"

text \<open>A dialog and a writer whose chats file is open, for the examples.\<close>

definition example_Dialog :: DialogInfo where
  "example_Dialog =
     \<lparr> type' = Personal, DialogInfo.name = ''Alice'', DialogInfo.relativePath = ''chats/chat_01/'',
       onlyMyMessages = False \<rparr>"

definition example_TextWriter :: TextWriter where
  "example_TextWriter =
     \<lparr> m_settings = \<lparr> Settings.path = ''out/'', internalLinksDomain = ''https://t.me/'' \<rparr>,
       m_summary = Some \<lparr> OutputFile.path = ''out/overview.txt'', written = [] \<rparr>,
       m_chats = Some \<lparr> OutputFile.path = ''out/chats.txt'', written = [] \<rparr>,
       m_chat = None,
       m_messagesCount = 0,
       m_dialogIndex = 0,
       m_dialogsCount = 11,
       m_dialog = example_Dialog \<rparr>"

text \<open>
  A sequence of \<^verbatim>\<open>writeChatSlice\<close> calls on one writer; it stops at the first call that
  fails or reports a failed write.
\<close>

fun writeChatSlices ::
  "Helpers \<Rightarrow> platform \<Rightarrow> TextWriter \<Rightarrow> MessagesSlice list \<Rightarrow> error + (Result \<times> TextWriter)" where
  "writeChatSlices h os w [] = Inr (Success, w)"
| "writeChatSlices h os w (d # ds) =
     (case writeChatSlice h os w d of
        Inl e \<Rightarrow> Inl e
      | Inr (r, w') \<Rightarrow> if r = Success then writeChatSlices h os w' ds else Inr (r, w'))"

text \<open>
  The message blocks of a slice joined by the line terminator, if every message of the
  slice can be serialized.
\<close>

definition slice_joined :: "Helpers \<Rightarrow> platform \<Rightarrow> string \<Rightarrow> MessagesSlice \<Rightarrow> string option" where
  "slice_joined h os ld d =
     (case SerializeMessages h os (peers d) ld (MessagesSlice.list d) of
        Inl e \<Rightarrow> None
      | Inr blocks \<Rightarrow> Some (JoinList (kLineBreak os) blocks))"

text \<open>
  What a file holds after the texts of successive slices have been written to it: the
  first text as it is, every later one behind one line terminator.
\<close>

definition slices_text :: "platform \<Rightarrow> string list \<Rightarrow> string" where
  "slices_text os texts =
     (case texts of
        [] \<Rightarrow> []
      | t # ts \<Rightarrow> t @ concat (map (\<lambda>t'. kLineBreak os @ t') ts))"

text \<open>A slice of one message with the given id.\<close>

definition example_Slice :: "int \<Rightarrow> MessagesSlice" where
  "example_Slice n =
     \<lparr> MessagesSlice.list = [example_Message \<lparr> id' := n \<rparr>], peers = example_peers \<rparr>"

section \<open>The key-value formatter\<close>

lemma lines_acc_no_LF: "LF \<notin> set l \<Longrightarrow> lines_acc cur (l @ r) = lines_acc (cur @ l) r"
  by (induction l arbitrary: cur) auto

lemma lines_acc_LF: "lines_acc cur (LF # r) = strip_cr cur # lines_acc [] r"
  by simp

lemma indexOf_found:
  assumes "0 \<le> from" "0 \<le> indexOf v c from"
  shows "from \<le> indexOf v c from" "indexOf v c from < int (length v)"
    "v ! nat (indexOf v c from) = c"
    "c \<notin> set (take (nat (indexOf v c from) - nat from) (drop (nat from) v))"
proof -
  define n where "n = nat from"
  obtain i where f: "List.find (\<lambda>i. v ! i = c) [n ..< length v] = Some i"
    and i: "indexOf v c from = int i"
    using assms by (auto simp: indexOf_def Let_def n_def split: option.splits)
  from f obtain k where k: "k < length [n ..< length v]" "v ! ([n ..< length v] ! k) = c"
    "i = [n ..< length v] ! k" "\<forall>j<k. v ! ([n ..< length v] ! j) \<noteq> c"
    unfolding find_Some_iff by blast
  then have ik: "i = n + k" and kl: "n + k < length v" by auto
  have fn: "from = int n" using assms(1) by (simp add: n_def)
  show "from \<le> indexOf v c from" using i ik fn by simp
  show "indexOf v c from < int (length v)" using i ik kl by simp
  have ni: "nat (indexOf v c from) = i" using i by simp
  have vi: "v ! i = c" using k(2) k(3) by simp
  show "v ! nat (indexOf v c from) = c" unfolding ni by (rule vi)
  have "\<forall>j<k. v ! (n + j) \<noteq> c"
    using k kl by auto
  then have "c \<notin> set (take k (drop n v))"
    using kl by (auto simp: in_set_conv_nth)
  then show "c \<notin> set (take (nat (indexOf v c from) - nat from) (drop (nat from) v))"
    unfolding ni using ik n_def by simp
qed

lemma indexOf_not_found:
  assumes "0 \<le> from" "indexOf v c from < 0"
  shows "c \<notin> set (drop (nat from) v)"
proof -
  have "List.find (\<lambda>i. v ! i = c) [nat from ..< length v] = None"
    using assms by (auto simp: indexOf_def Let_def split: option.splits)
  then have "\<forall>i. nat from \<le> i \<and> i < length v \<longrightarrow> v ! i \<noteq> c"
    by (auto simp: find_None_iff)
  then show ?thesis
    by (auto simp: in_set_conv_nth)
qed

lemma indexOf_neg_iff: "indexOf v c 0 < 0 \<longleftrightarrow> c \<notin> set v"
proof
  assume "indexOf v c 0 < 0"
  then show "c \<notin> set v" using indexOf_not_found [of 0 v c] by simp
next
  assume "c \<notin> set v"
  then have "List.find (\<lambda>i. v ! i = c) [0 ..< length v] = None"
    by (auto simp: find_None_iff)
  then show "indexOf v c 0 < 0" by (simp add: indexOf_def)
qed

lemma SerializeMultiline_finish:
  "SerializeMultiline os a v n = finish os v (SerializeMultiline_loop os v a 0 n)"
  by (simp add: SerializeMultiline_def finish_def Let_def split: prod.splits)

lemma LF_neq_CR: "LF \<noteq> CR"
  by (simp add: LF_def CR_def)

lemma drop_split_at:
  assumes "o' \<le> n" "n < length v"
  shows "drop o' v = take (n - o') (drop o' v) @ v ! n # drop (Suc n) v"
proof -
  have "drop o' v = take (n - o') (drop o' v) @ drop (n - o') (drop o' v)"
    by (rule append_take_drop_id [symmetric])
  also have "drop (n - o') (drop o' v) = drop n v"
    using assms by simp
  also have "drop n v = v ! n # drop (Suc n) v"
    using assms by (simp add: Cons_nth_drop_Suc)
  finally show ?thesis .
qed

lemma piece_strip_cr:
  assumes "o' \<le> n" "n < length v" "o' = 0 \<or> v ! (o' - 1) = LF"
  defines "l \<equiv> take (n - o') (drop o' v)"
  defines "win \<equiv> (int n > 0 \<and> byteAt v (int n - 1) = CR)"
  shows "appendData a v (int o') ((if win then int n - 1 else int n) - int o') = a @ strip_cr l"
proof (cases "n = o'")
  case True
  have "\<not> win"
  proof (cases "o' = 0")
    case True
    then show ?thesis using \<open>n = o'\<close> by (simp add: win_def)
  next
    case False
    then have "v ! (o' - 1) = LF" using assms(3) by simp
    moreover have "byteAt v (int n - 1) = v ! (o' - 1)"
      using False True assms(2) by (simp add: byteAt_def nat_diff_distrib')
    ultimately show ?thesis using LF_neq_CR by (simp add: win_def)
  qed
  moreover have "l = []" using True by (simp add: l_def)
  ultimately show ?thesis using True by (simp add: appendData_def strip_cr_def)
next
  case False
  then have lt: "o' < n" using assms(1) by simp
  have len: "length l = n - o'" using assms(2) lt by (simp add: l_def)
  have ne: "l \<noteq> []" using len lt by auto
  have lastl: "last l = v ! (n - 1)"
  proof -
    have "last l = l ! (n - o' - 1)" using ne len by (simp add: last_conv_nth)
    also have "\<dots> = v ! (o' + (n - o' - 1))" using lt assms(2) by (simp add: l_def)
    also have "o' + (n - o' - 1) = n - 1" using lt by simp
    finally show ?thesis .
  qed
  have bat: "byteAt v (int n - 1) = v ! (n - 1)"
    using lt assms(2) by (simp add: byteAt_def nat_diff_distrib')
  have winiff: "win \<longleftrightarrow> last l = CR"
    using lt bat lastl by (simp add: win_def)
  show ?thesis
  proof (cases win)
    case True
    have "take (nat (int n - 1 - int o')) (drop o' v) = butlast l"
    proof -
      have "nat (int n - 1 - int o') = n - o' - 1" using lt by simp
      then show ?thesis using len by (simp add: l_def butlast_take)
    qed
    then show ?thesis using True winiff ne lt by (simp add: appendData_def strip_cr_def)
  next
    case False
    have "take (nat (int n - int o')) (drop o' v) = l"
      using lt by (simp add: l_def nat_diff_distrib')
    then show ?thesis using False winiff lt by (simp add: appendData_def strip_cr_def)
  qed
qed

lemma lines_acc_rest_no_LF:
  "LF \<notin> set r \<Longrightarrow> lines_acc [] r = (if r = [] then [] else [r])"
  using lines_acc_no_LF [of r "[]" "[]"] by simp

lemma quoted_lines_Cons:
  "quoted_lines os (l # ls) = ''> '' @ l @ kLineBreak os @ quoted_lines os ls"
  by (simp add: quoted_lines_def)

lemma loop_unfold:
  "SerializeMultiline_loop os v a offset newline =
     (let a2 = appendData (a @ ''> '') v offset
                 ((if newline > 0 \<and> byteAt v (newline - 1) = CR then newline - 1 else newline) - offset)
               @ kLineBreak os;
          newline' = indexOf v LF (newline + 1)
      in if newline' > 0 then SerializeMultiline_loop os v a2 (newline + 1) newline'
         else (a2, newline + 1))"
  by (subst SerializeMultiline_loop.simps) (simp add: Let_def)

lemma loop_lines:
  assumes "o' \<le> n" "n < length v" "v ! n = LF" "LF \<notin> set (take (n - o') (drop o' v))"
    "o' = 0 \<or> v ! (o' - 1) = LF"
  shows "finish os v (SerializeMultiline_loop os v a (int o') (int n))
           = a @ quoted_lines os (lines_acc [] (drop o' v))"
  using assms
proof (induction "length v - n" arbitrary: o' n a rule: less_induct)
  case less
  define l where "l = take (n - o') (drop o' v)"
  define r where "r = drop (Suc n) v"
  have split: "drop o' v = l @ LF # r"
    using drop_split_at [OF less.prems(1) less.prems(2)] less.prems(3) by (simp add: l_def r_def)
  have noLFl: "LF \<notin> set l"
    using less.prems(4) by (simp add: l_def)
  have lines: "lines_acc [] (drop o' v) = strip_cr l # lines_acc [] r"
    unfolding split using lines_acc_no_LF [OF noLFl, of "[]" "LF # r"] by simp
  define a2 where "a2 = a @ ''> '' @ strip_cr l @ kLineBreak os"
  have piece: "appendData (a @ ''> '') v (int o')
         ((if int n > 0 \<and> byteAt v (int n - 1) = CR then int n - 1 else int n) - int o')
         @ kLineBreak os = a2"
    using piece_strip_cr [OF less.prems(1) less.prems(2) less.prems(5), of "a @ ''> ''"]
    by (simp add: a2_def l_def)
  define n' where "n' = indexOf v LF (int n + 1)"
  have unf: "SerializeMultiline_loop os v a (int o') (int n) =
      (if n' > 0 then SerializeMultiline_loop os v a2 (int n + 1) n' else (a2, int n + 1))"
    by (subst loop_unfold) (simp only: Let_def piece n'_def)
  show ?case
  proof (cases "n' > 0")
    case True
    then have nn: "0 \<le> indexOf v LF (int n + 1)" by (simp add: n'_def)
    have f1: "int n + 1 \<le> n'" and f2: "n' < int (length v)" and f3: "v ! nat n' = LF"
      and f4: "LF \<notin> set (take (nat n' - nat (int n + 1)) (drop (nat (int n + 1)) v))"
      using indexOf_found [of "int n + 1" v LF, OF _ nn] by (simp_all add: n'_def)
    define m where "m = nat n'"
    have m: "n' = int m" using True by (simp add: m_def)
    have p1: "Suc n \<le> m" using f1 m by simp
    have p2: "m < length v" using f2 m by simp
    have p3: "v ! m = LF" using f3 m by simp
    have p4: "LF \<notin> set (take (m - Suc n) (drop (Suc n) v))"
      using f4 m by (simp add: nat_add_distrib)
    have p5: "Suc n = 0 \<or> v ! (Suc n - 1) = LF" using less.prems(3) by simp
    have "finish os v (SerializeMultiline_loop os v a2 (int (Suc n)) (int m))
            = a2 @ quoted_lines os (lines_acc [] (drop (Suc n) v))"
      using less.hyps [OF _ p1 p2 p3 p4 p5] p1 p2 by simp
    then show ?thesis
      using True unf m by (simp add: lines quoted_lines_Cons a2_def r_def add.commute)
  next
    case False
    have "indexOf v LF (int n + 1) = - 1 \<or> 0 \<le> indexOf v LF (int n + 1)"
      by (auto simp: indexOf_def Let_def split: option.splits)
    moreover have "0 \<le> indexOf v LF (int n + 1) \<Longrightarrow> int n + 1 \<le> indexOf v LF (int n + 1)"
      using indexOf_found(1) [of "int n + 1" v LF] by simp
    ultimately have neg: "indexOf v LF (int n + 1) < 0"
      using False by (auto simp: n'_def)
    have "LF \<notin> set (drop (nat (int n + 1)) v)"
      using indexOf_not_found [of "int n + 1" v LF] neg by simp
    then have noLF: "LF \<notin> set r"
      by (simp add: r_def nat_add_distrib)
    have rest: "lines_acc [] r = (if r = [] then [] else [r])"
      using noLF by (rule lines_acc_rest_no_LF)
    have fin: "finish os v (a2, int n + 1) = a2 @ quoted_lines os (if r = [] then [] else [r])"
    proof (cases "r = []")
      case True
      then have "length v \<le> Suc n" by (simp add: r_def)
      then show ?thesis using True by (simp add: finish_def quoted_lines_def)
    next
      case False
      then have gt: "Suc n < length v" by (simp add: r_def)
      have lr: "length r = length v - Suc n" by (simp add: r_def)
      have k: "nat (int (length v) - (int n + 1)) = length v - Suc n" by simp
      have d: "drop (nat (int n + 1)) v = r" by (simp add: r_def nat_add_distrib)
      have nonneg: "\<not> int (length v) - (int n + 1) < 0" using gt by simp
      have ad: "appendData (a2 @ ''> '') v (int n + 1) (int (length v) - (int n + 1))
                  = a2 @ ''> '' @ r"
        unfolding appendData_def k d using lr nonneg by simp
      have "int n + 1 < int (length v)" using gt by simp
      then show ?thesis
        using False by (simp add: finish_def quoted_lines_def ad)
    qed
    have "finish os v (SerializeMultiline_loop os v a (int o') (int n))
            = a2 @ quoted_lines os (if r = [] then [] else [r])"
      using False unf fin by simp
    also have "\<dots> = a @ quoted_lines os (strip_cr l # lines_acc [] r)"
      by (simp add: rest quoted_lines_Cons a2_def)
    finally show ?thesis
      by (simp add: lines)
  qed
qed

lemma SerializeMultiline_lines:
  assumes "LF \<in> set v"
  shows "SerializeMultiline os a v (indexOf v LF 0) = a @ quoted_lines os (spec_value_lines v)"
proof -
  have nn: "0 \<le> indexOf v LF 0"
    using assms indexOf_neg_iff [of v LF] by simp
  define n where "n = nat (indexOf v LF 0)"
  have n: "indexOf v LF 0 = int n" using nn by (simp add: n_def)
  have p2: "n < length v" and p3: "v ! n = LF" and p4: "LF \<notin> set (take (n - 0) (drop 0 v))"
    using indexOf_found [of 0 v LF, OF _ nn] by (simp_all add: n_def)
  have "finish os v (SerializeMultiline_loop os v a (int 0) (int n))
          = a @ quoted_lines os (lines_acc [] (drop 0 v))"
    by (rule loop_lines [OF _ p2 p3 p4]) simp_all
  then show ?thesis
    by (simp add: SerializeMultiline_finish n spec_value_lines_def)
qed

lemma SerializeKeyValue_step_group:
  "SerializeKeyValue_step os result (key, v) = result @ line_group os key v"
proof (cases "LF \<in> set v")
  case True
  then have "0 \<le> indexOf v LF 0" and "v \<noteq> []"
    using indexOf_neg_iff [of v LF] by auto
  then show ?thesis
    using True SerializeMultiline_lines [OF True, of os "result @ key @ '':'' @ kLineBreak os"]
    by (simp add: SerializeKeyValue_step_def line_group_def Let_def)
next
  case False
  then have "\<not> 0 \<le> indexOf v LF 0"
    using indexOf_neg_iff [of v LF] by simp
  then show ?thesis
    using False by (simp add: SerializeKeyValue_step_def line_group_def Let_def)
qed

lemma foldl_step_groups:
  "foldl (SerializeKeyValue_step os) result vs
     = result @ concat (map (\<lambda>kv. line_group os (fst kv) (snd kv)) vs)"
proof (induction vs arbitrary: result)
  case Nil
  show ?case by simp
next
  case (Cons kv vs)
  obtain k v where kv: "kv = (k, v)" by (cases kv)
  show ?case
    by (simp add: kv Cons.IH SerializeKeyValue_step_group)
qed

lemma SerializeKeyValue_groups:
  "SerializeKeyValue os vs = concat (map (\<lambda>kv. line_group os (fst kv) (snd kv)) vs)"
  by (simp add: SerializeKeyValue_def foldl_step_groups)

lemma SerializeKeyValue_append:
  "SerializeKeyValue os (xs @ ys) = SerializeKeyValue os xs @ SerializeKeyValue os ys"
  by (simp add: SerializeKeyValue_groups)

lemma SerializeKeyValue_Cons:
  "SerializeKeyValue os ((k, v) # ys) = line_group os k v @ SerializeKeyValue os ys"
  by (simp add: SerializeKeyValue_groups)

lemma SerializeKeyValue_Nil: "SerializeKeyValue os [] = []"
  by (simp add: SerializeKeyValue_def)

lemma length_lines_acc:
  "length (lines_acc cur v) = length (filter (\<lambda>c. c = LF) v)
     + (if v = [] then (if cur = [] then 0 else 1) else if last v = LF then 0 else 1)"
  by (induction v arbitrary: cur) auto

lemma length_value_lines:
  assumes "v \<noteq> []"
  shows "length (spec_value_lines v)
           = (if last v = LF then line_breaks v else line_breaks v + 1)"
  using assms by (simp add: spec_value_lines_def length_lines_acc line_breaks_def)

section \<open>The list joiner and the numbers\<close>

lemma JoinList_loop_joined:
  "counter < length xs \<Longrightarrow>
     JoinList_loop sep xs result counter = result @ joined sep (drop counter xs)"
proof (induction sep xs result counter rule: JoinList_loop.induct)
  case (1 sep xs result counter)
  have d: "drop counter xs = xs ! counter # drop (Suc counter) xs"
    using 1(2) by (simp add: Cons_nth_drop_Suc)
  show ?case
  proof (cases "Suc counter = length xs")
    case True
    then show ?thesis
      using 1(2) d by (subst JoinList_loop.simps) (simp add: Let_def)
  next
    case False
    then have lt: "Suc counter < length xs" using 1(2) by simp
    have d2: "drop (Suc counter) xs = xs ! Suc counter # drop (Suc (Suc counter)) xs"
      using lt by (simp add: Cons_nth_drop_Suc)
    have "JoinList_loop sep xs ((result @ xs ! counter) @ sep) (counter + 1)
            = ((result @ xs ! counter) @ sep) @ joined sep (drop (counter + 1) xs)"
      using 1(1) [OF 1(2) refl refl] False lt by simp
    then show ?thesis
      using False 1(2) by (subst JoinList_loop.simps) (simp add: Let_def d d2)
  qed
qed

lemma JoinList_joined: "JoinList sep xs = joined sep xs"
proof (cases xs)
  case Nil
  then show ?thesis by (simp add: JoinList_def)
next
  case (Cons x ys)
  show ?thesis
  proof (cases ys)
    case Nil
    then show ?thesis using Cons by (simp add: JoinList_def)
  next
    case (Cons y zs)
    then have "0 < length xs" and "length xs \<noteq> 1" and "xs \<noteq> []"
      using \<open>xs = x # ys\<close> by simp_all
    then show ?thesis
      using JoinList_loop_joined [of 0 xs sep "[]"] by (simp add: JoinList_def)
  qed
qed

lemma joined_nonempty: "x \<noteq> [] \<Longrightarrow> joined sep (x # xs) \<noteq> []"
  by (cases xs) simp_all

lemma length_decimal: "length (decimal n) = digit_count n"
proof (induction n rule: decimal.induct)
  case (1 n)
  show ?case
  proof (cases "n < 10")
    case True
    then show ?thesis by (subst decimal.simps, subst digit_count.simps) simp
  next
    case False
    then show ?thesis
      using 1 by (subst decimal.simps, subst digit_count.simps) simp
  qed
qed

lemma decimal_nonempty: "decimal n \<noteq> []"
  by (subst decimal.simps) simp

lemma NumberToString_nonempty: "NumberToString n \<noteq> []"
  by (simp add: NumberToString_def NumberToStringFilled_def Let_def decimal_nonempty)

lemma NumberToString_nonneg: "0 \<le> n \<Longrightarrow> NumberToString n = decimal (nat n)"
  by (simp add: NumberToString_def NumberToStringFilled_def Let_def)

lemma digit_char_no_LF: "d < 10 \<Longrightarrow> digit_char d \<noteq> LF"
proof -
  assume "d < 10"
  then have "digit_char d \<in> set ''0123456789''"
    unfolding digit_char_def by (intro nth_mem) simp
  then show ?thesis by (auto simp: LF_def)
qed

lemma decimal_no_LF: "LF \<notin> set (decimal n)"
proof (induction n rule: decimal.induct)
  case (1 n)
  show ?case
  proof (cases "n < 10")
    case True
    then show ?thesis using digit_char_no_LF [of n] by (subst decimal.simps) auto
  next
    case False
    then show ?thesis
      using 1 digit_char_no_LF [of "n mod 10"] by (subst decimal.simps) auto
  qed
qed

lemma set_strip_cr: "set (strip_cr l) \<subseteq> set l"
  by (auto simp: strip_cr_def dest: in_set_butlastD)

lemma lines_acc_LF_free: "LF \<notin> set cur \<Longrightarrow> LF \<notin> set (concat (lines_acc cur v))"
proof (induction v arbitrary: cur)
  case Nil
  then show ?case by simp
next
  case (Cons c cs)
  show ?case
  proof (cases "c = LF")
    case True
    have "LF \<notin> set (strip_cr cur)" using Cons.prems set_strip_cr [of cur] by auto
    moreover have "LF \<notin> set (concat (lines_acc [] cs))" by (rule Cons.IH) simp
    ultimately show ?thesis using True by simp
  next
    case False
    then have "LF \<notin> set (cur @ [c])" using Cons.prems by simp
    then have "LF \<notin> set (concat (lines_acc (cur @ [c]) cs))" by (rule Cons.IH)
    then show ?thesis using False by simp
  qed
qed

lemma lines_acc_empty_iff: "lines_acc cur v = [] \<longleftrightarrow> cur = [] \<and> v = []"
  by (induction v arbitrary: cur) auto

lemma joined_Cons: "joined sep (x # xs) = (if xs = [] then x else x @ sep @ joined sep xs)"
  by (cases xs) simp_all

lemma joined_lines_acc:
  "CR \<notin> set cur \<Longrightarrow> CR \<notin> set v \<Longrightarrow>
     joined [LF] (lines_acc cur v)
       = (if v = [] then cur else if last v = LF then cur @ butlast v else cur @ v)"
proof (induction v arbitrary: cur)
  case Nil
  then show ?case by simp
next
  case (Cons c cs)
  show ?case
  proof (cases "c = LF")
    case True
    have "cur \<noteq> [] \<Longrightarrow> last cur \<noteq> CR"
      using Cons.prems(1) last_in_set [of cur] by metis
    then have s: "strip_cr cur = cur"
      by (auto simp: strip_cr_def)
    have ih: "joined [LF] (lines_acc [] cs)
                = (if cs = [] then [] else if last cs = LF then butlast cs else cs)"
      using Cons.IH [of "[]"] Cons.prems(2) by simp
    show ?thesis
      using True by (simp add: s joined_Cons lines_acc_empty_iff ih)
  next
    case False
    have "CR \<notin> set (cur @ [c])" using Cons.prems by simp
    then have "joined [LF] (lines_acc (cur @ [c]) cs)
        = (if cs = [] then cur @ [c] else if last cs = LF then (cur @ [c]) @ butlast cs
           else (cur @ [c]) @ cs)"
      using Cons.IH [of "cur @ [c]"] Cons.prems(2) by simp
    then show ?thesis
      using False by simp
  qed
qed

section \<open>The field list of a message\<close>

text \<open>Every lambda only appends to \<^verbatim>\<open>values\<close>.\<close>

lemma push_append: "NO_MATCH [] vs \<Longrightarrow> push k v vs = vs @ push k v []"
  by (simp add: push_def)

lemma pushFrom_append:
  "NO_MATCH [] vs \<Longrightarrow> pushFrom h ps m l vs = vs @ pushFrom h ps m l []"
  by (simp add: pushFrom_def push_append)

lemma pushActor_append:
  "NO_MATCH [] vs \<Longrightarrow> pushActor h ps m vs = vs @ pushActor h ps m []"
  by (simp add: pushActor_def pushFrom_append)

lemma pushAction_append:
  "NO_MATCH [] vs \<Longrightarrow> pushAction a vs = vs @ pushAction a []"
  by (simp add: pushAction_def push_append)

lemma pushReplyToMsgId_append:
  "NO_MATCH [] vs \<Longrightarrow> pushReplyToMsgId m l vs = vs @ pushReplyToMsgId m l []"
  by (simp add: pushReplyToMsgId_def push_append)

lemma pushUserNames_append:
  "NO_MATCH [] vs \<Longrightarrow> pushUserNames h ps d l1 l2 vs = vs @ pushUserNames h ps d l1 l2 []"
  by (simp add: pushUserNames_def Let_def push_append)

lemma pushTTL_append:
  "NO_MATCH [] vs \<Longrightarrow> pushTTL m l vs = vs @ pushTTL m l []"
  by (simp add: pushTTL_def Let_def push_append)

lemmas push_appends = push_append pushFrom_append pushActor_append pushAction_append
  pushReplyToMsgId_append pushUserNames_append pushTTL_append

lemma after_simps [simp]: "after vs (Inl e) = Inl e" "after vs (Inr d) = Inr (vs @ d)"
  by (simp_all add: after_def)

lemma after_after [simp]: "after vs (after ws r) = after (vs @ ws) r"
  by (cases r) simp_all

lemma pushPath_append:
  "NO_MATCH [] vs \<Longrightarrow> pushPath f l n vs = after vs (pushPath f l n [])"
  by (simp add: pushPath_def push_append)

lemma pushPhoto_append:
  "NO_MATCH [] vs \<Longrightarrow> pushPhoto img vs = after vs (pushPhoto img [])"
  by (simp add: pushPhoto_def pushPath_def push_appends)

lemma pushActionContent_append:
  "NO_MATCH [] vs \<Longrightarrow> pushActionContent h ps m vs = after vs (pushActionContent h ps m [])"
  by (simp add: pushActionContent_def Let_def push_appends pushPhoto_append [of "_ @ _"]
      split: ActionContent.splits)

lemma pushUnlessAction_append:
  "NO_MATCH [] vs \<Longrightarrow> pushUnlessAction h ps m vs = vs @ pushUnlessAction h ps m []"
  by (simp add: pushUnlessAction_def Let_def push_appends)

lemma pushDocumentKind_append:
  "NO_MATCH [] vs \<Longrightarrow> pushDocumentKind d vs = after vs (pushDocumentKind d [])"
  by (simp add: pushDocumentKind_def pushPath_def push_appends)

lemma pushDocument_append:
  "NO_MATCH [] vs \<Longrightarrow> pushDocument m d vs = after vs (pushDocument m d [])"
  by (cases "pushDocumentKind d []")
    (simp_all add: pushDocument_def Let_def pushDocumentKind_append [of vs] push_appends)

lemma pushMediaContent_append:
  "NO_MATCH [] vs \<Longrightarrow>
     pushMediaContent h os ps ld m vs = after vs (pushMediaContent h os ps ld m [])"
  by (simp add: pushMediaContent_def Let_def push_appends pushPhoto_append [of vs]
      pushDocument_append [of vs] split: MediaContent.splits sum.splits)

lemma MessageValues_decomp:
  "MessageValues h os m ps ld =
     (case pushActionContent h ps m [] of
        Inl e \<Rightarrow> Inl e
      | Inr a \<Rightarrow>
          (case pushMediaContent h os ps ld m [] of
             Inl e \<Rightarrow> Inl e
           | Inr md \<Rightarrow>
               Inr (base_fields h m @ a @ pushUnlessAction h ps m [] @ md
                      @ push ''Text'' (text' m) [])))"
proof -
  have a: "pushActionContent h ps m (base_fields h m) = after (base_fields h m) (pushActionContent h ps m [])"
    by (rule pushActionContent_append) (simp add: base_fields_def NO_MATCH_def)
  show ?thesis
    unfolding MessageValues_def Let_def base_fields_def [symmetric] a
    by (cases "pushActionContent h ps m []"; cases "pushMediaContent h os ps ld m []")
      (simp_all add: pushUnlessAction_append [of "_ @ _"] pushMediaContent_append [of "_ @ _"]
        push_append [of "_ @ _"])
qed

lemma keys_Nil: "keys [] \<subseteq> K"
  by (simp add: keys_def)

lemma keys_append: "keys (xs @ ys) \<subseteq> K \<longleftrightarrow> keys xs \<subseteq> K \<and> keys ys \<subseteq> K"
  by (auto simp: keys_def)

lemma keys_push: "k \<in> K \<Longrightarrow> keys (push k v []) \<subseteq> K"
  by (auto simp: push_def keys_def)

lemma keys_pushFrom: "l \<in> K \<Longrightarrow> keys (pushFrom h ps m l []) \<subseteq> K"
  by (simp add: pushFrom_def keys_push keys_Nil)

lemma keys_pushReplyToMsgId: "l \<in> K \<Longrightarrow> keys (pushReplyToMsgId m l []) \<subseteq> K"
  by (simp add: pushReplyToMsgId_def keys_push keys_Nil)

lemma keys_pushUserNames:
  "l1 \<in> K \<Longrightarrow> l2 \<in> K \<Longrightarrow> keys (pushUserNames h ps d l1 l2 []) \<subseteq> K"
  by (simp add: pushUserNames_def Let_def keys_push keys_Nil)

lemma keys_pushTTL: "l \<in> K \<Longrightarrow> keys (pushTTL m l []) \<subseteq> K"
  by (simp add: pushTTL_def Let_def keys_push keys_Nil)

lemmas keys_rules = keys_Nil keys_append keys_push keys_pushFrom keys_pushReplyToMsgId
  keys_pushUserNames keys_pushTTL

lemma keys_pushPath:
  assumes "l \<in> K" "pushPath f l n [] = Inr d"
  shows "keys d \<subseteq> K"
proof -
  have "d = push l (pathText f n) []"
    using assms(2) by (simp add: pushPath_def split: if_splits)
  then show ?thesis
    using assms(1) by (simp add: keys_push)
qed

lemma keys_pushPhoto:
  assumes "''Photo'' \<in> K" "''Width'' \<in> K" "''Height'' \<in> K" "pushPhoto img [] = Inr d"
  shows "keys d \<subseteq> K"
proof -
  obtain p where p: "pushPath (Image.file' img) ''Photo'' [] [] = Inr p"
    and d: "d = (if Image.width img \<noteq> 0 \<and> Image.height img \<noteq> 0
                 then p @ push ''Width'' (NumberToString (Image.width img)) []
                        @ push ''Height'' (NumberToString (Image.height img)) []
                 else p)"
    using assms(4)
    by (cases "pushPath (Image.file' img) ''Photo'' [] []")
      (auto simp: pushPhoto_def push_append split: if_splits)
  have "keys p \<subseteq> K"
    using assms(1) p by (rule keys_pushPath)
  then show ?thesis
    using assms(2,3) by (simp add: d keys_rules)
qed

lemma action_keys_mem:
  "''Actor'' \<in> action_keys" "''Action'' \<in> action_keys" "''Title'' \<in> action_keys"
  "''Member'' \<in> action_keys" "''Members'' \<in> action_keys" "''New title'' \<in> action_keys"
  "''Photo'' \<in> action_keys" "''Width'' \<in> action_keys" "''Height'' \<in> action_keys"
  "''Inviter'' \<in> action_keys" "''Message'' \<in> action_keys" "''Game message'' \<in> action_keys"
  "''Score'' \<in> action_keys" "''Amount'' \<in> action_keys" "''Invoice message'' \<in> action_keys"
  "''Duration'' \<in> action_keys" "''Discard reason'' \<in> action_keys"
  "''Information'' \<in> action_keys" "''Reason'' \<in> action_keys" "''Value'' \<in> action_keys"
  "''Values'' \<in> action_keys"
  by (simp_all add: action_keys_def)

lemma media_keys_mem:
  "''Photo'' \<in> media_keys" "''Width'' \<in> media_keys" "''Height'' \<in> media_keys"
  "''Self destruct period'' \<in> media_keys" "''Sticker'' \<in> media_keys" "''Emoji'' \<in> media_keys"
  "''Video message'' \<in> media_keys" "''Voice message'' \<in> media_keys"
  "''Animation'' \<in> media_keys" "''Video file'' \<in> media_keys" "''Audio file'' \<in> media_keys"
  "''Performer'' \<in> media_keys" "''Title'' \<in> media_keys" "''File'' \<in> media_keys"
  "''Mime type'' \<in> media_keys" "''Duration'' \<in> media_keys"
  "''Contact information'' \<in> media_keys" "''Location'' \<in> media_keys"
  "''Live location period'' \<in> media_keys" "''Place name'' \<in> media_keys"
  "''Address'' \<in> media_keys" "''Game'' \<in> media_keys" "''Description'' \<in> media_keys"
  "''Link'' \<in> media_keys" "''Invoice'' \<in> media_keys"
  by (simp_all add: media_keys_def)

lemma keys_pushActionContent:
  assumes "pushActionContent h ps m [] = Inr a"
  shows "keys a \<subseteq> action_keys"
proof (cases "ServiceAction.content (action m)")
  case (ActionChatEditPhoto photo)
  then obtain p where p: "pushPhoto (image photo) [] = Inr p"
    and a: "a = pushActor h ps m [] @ pushAction ''Edit group photo'' [] @ p"
    using assms
    by (cases "pushPhoto (image photo) []")
      (simp_all add: pushActionContent_def Let_def push_appends pushPhoto_append [of "_ @ _"])
  have "keys p \<subseteq> action_keys"
    using p by (rule keys_pushPhoto [rotated 3]) (rule action_keys_mem)+
  then show ?thesis
    by (simp add: a pushActor_def pushAction_def keys_rules action_keys_mem)
qed (use assms [symmetric] in \<open>simp_all add: pushActionContent_def Let_def push_appends
      pushActor_def pushAction_def keys_rules action_keys_mem\<close>)

lemma keys_pushDocumentKind:
  assumes "pushDocumentKind d [] = Inr v"
  shows "keys v \<subseteq> media_keys"
proof -
  have ok: "\<not> (File.relativePath (Document.file' d) = [] \<and> skipReason (Document.file' d) = NoSkipReason)"
    using assms by (auto simp: pushDocumentKind_def pushPath_def split: if_splits)
  then have p: "pushPath (Document.file' d) l [] vs = Inr (push l (pathText (Document.file' d) []) vs)"
    for l vs
    by (auto simp: pushPath_def)
  show ?thesis
    using assms [symmetric]
    by (simp add: pushDocumentKind_def p push_appends keys_rules media_keys_mem split: if_splits)
qed

lemma keys_pushDocument:
  assumes "pushDocument m d [] = Inr md"
  shows "keys md \<subseteq> media_keys"
proof (cases "pushDocumentKind d []")
  case (Inl e)
  then show ?thesis using assms by (simp add: pushDocument_def)
next
  case (Inr v)
  then have "keys v \<subseteq> media_keys" by (rule keys_pushDocumentKind)
  then show ?thesis
    using assms [symmetric] Inr
    by (simp add: pushDocument_def Let_def push_appends keys_rules media_keys_mem)
qed

lemma keys_pushMediaContent:
  assumes "pushMediaContent h os ps ld m [] = Inr md"
  shows "keys md \<subseteq> media_keys"
proof (cases "Media.content (media m)")
  case (MediaPhoto photo)
  then obtain p where p: "pushPhoto (image photo) [] = Inr p"
    and md: "md = p @ pushTTL m ''Self destruct period'' []"
    using assms
    by (cases "pushPhoto (image photo) []")
      (auto simp: pushMediaContent_def push_appends)
  have "keys p \<subseteq> media_keys"
    using p by (rule keys_pushPhoto [rotated 3]) (rule media_keys_mem)+
  then show ?thesis
    by (simp add: md keys_rules media_keys_mem)
next
  case (MediaDocument d)
  then show ?thesis
    using assms keys_pushDocument [of m d md] by (simp add: pushMediaContent_def)
qed (use assms [symmetric] in \<open>simp_all add: pushMediaContent_def Let_def push_appends
      keys_rules media_keys_mem\<close>)

lemma wrapUserName_nonempty: "wrapUserName h ps u \<noteq> []"
  by (simp add: wrapUserName_def Let_def)

lemma wrapPeerName_nonempty: "wrapPeerName ps p \<noteq> []"
  by (simp add: wrapPeerName_def Let_def)

lemma pushActor_eq:
  "pushActor h ps m [] = (if fromId m \<noteq> 0 then [(''Actor'', wrapUserName h ps (fromId m))] else [])"
  by (simp add: pushActor_def pushFrom_def push_def wrapUserName_nonempty)

lemma actor_first:
  assumes "emitsActor (ServiceAction.content (action m))" "fromId m \<noteq> 0"
    "pushActionContent h ps m [] = Inr a"
  shows "take 1 a = [(''Actor'', wrapUserName h ps (fromId m))]"
proof (cases "ServiceAction.content (action m)")
  case (ActionChatEditPhoto photo)
  then show ?thesis
    using assms
    by (cases "pushPhoto (image photo) []")
      (auto simp: pushActionContent_def Let_def push_appends pushPhoto_append [of "_ @ _"]
        pushActor_eq)
qed (use assms in \<open>auto simp: pushActionContent_def Let_def push_appends pushActor_eq
      emitsActor_def\<close>)

lemma no_actor:
  assumes "\<not> emitsActor (ServiceAction.content (action m)) \<or> fromId m = 0"
    "pushActionContent h ps m [] = Inr a"
  shows "keys a \<subseteq> action_keys - {''Actor''}"
proof -
  have mem: "k \<in> action_keys \<Longrightarrow> k \<noteq> ''Actor'' \<Longrightarrow> k \<in> action_keys - {''Actor''}" for k
    by simp
  have act: "keys (pushActor h ps m []) \<subseteq> action_keys - {''Actor''}"
    if "emitsActor (ServiceAction.content (action m))"
    using that assms(1) by (simp add: pushActor_eq keys_Nil)
  show ?thesis
  proof (cases "ServiceAction.content (action m)")
    case (ActionChatEditPhoto photo)
    then obtain p where p: "pushPhoto (image photo) [] = Inr p"
      and a: "a = pushActor h ps m [] @ pushAction ''Edit group photo'' [] @ p"
      using assms
      by (cases "pushPhoto (image photo) []")
        (simp_all add: pushActionContent_def Let_def push_appends pushPhoto_append [of "_ @ _"])
    have "keys p \<subseteq> action_keys - {''Actor''}"
      using p by (rule keys_pushPhoto [rotated 3]) (simp_all add: action_keys_mem)
    moreover have "emitsActor (ServiceAction.content (action m))"
      using ActionChatEditPhoto by (simp add: emitsActor_def)
    ultimately show ?thesis
      using act by (simp add: a pushAction_def keys_rules action_keys_mem)
  qed (use assms(2) [symmetric] act in \<open>simp_all add: pushActionContent_def Let_def push_appends
      pushAction_def keys_rules action_keys_mem emitsActor_def\<close>)
qed

lemma keys_pushUnlessAction: "keys (pushUnlessAction h ps m []) \<subseteq> unless_keys"
  by (simp add: pushUnlessAction_def Let_def push_appends keys_rules unless_keys_def)

lemma pushUnlessAction_action:
  "ServiceAction.content (action m) \<noteq> NoAction \<Longrightarrow> pushUnlessAction h ps m [] = []"
  by (simp add: pushUnlessAction_def)

lemma pushActionContent_NoAction:
  "ServiceAction.content (action m) = NoAction \<Longrightarrow> pushActionContent h ps m [] = Inr []"
  by (simp add: pushActionContent_def)

section \<open>The claims about the serializer\<close>

text \<open>
  Claim C3. A message whose media variant is \<open>UnsupportedMedia\<close> is serialized as the
  fixed incompatibility notice and nothing else, whatever its action, text, sender, reply
  target and other members are: the condition is on the media alone, and no field list is
  built.
\<close>

theorem unsupported_media_notice:
  "Media.content (media message) = UnsupportedMedia \<Longrightarrow>
     SerializeMessage h os message ps ld =
       Inr (''Error! This message is not supported by this version of Telegram Desktop. ''
            @ ''Please update the application.'')"
  by (simp add: SerializeMessage_def UnsupportedNotice_def)

text \<open>An unsupported message that also carries a chat-create action and a text.\<close>

theorem unsupported_media_notice_witness:
  "Media.content (media (example_Message
       \<lparr> action := \<lparr> ServiceAction.content = ActionChatCreate ''Group'' [5] \<rparr>,
         media := \<lparr> Media.content = UnsupportedMedia, ttl = 3 \<rparr> \<rparr>)) = UnsupportedMedia
   \<and> SerializeMessage example_Helpers Other
       (example_Message
         \<lparr> action := \<lparr> ServiceAction.content = ActionChatCreate ''Group'' [5] \<rparr>,
           media := \<lparr> Media.content = UnsupportedMedia, ttl = 3 \<rparr> \<rparr>)
       example_peers ''t.me/''
     = Inr (''Error! This message is not supported by this version of Telegram Desktop. ''
            @ ''Please update the application.'')"
  using unsupported_media_notice [of "example_Message
       \<lparr> action := \<lparr> ServiceAction.content = ActionChatCreate ''Group'' [5] \<rparr>,
         media := \<lparr> Media.content = UnsupportedMedia, ttl = 3 \<rparr> \<rparr>"
      example_Helpers Other example_peers "''t.me/''"]
  by (simp add: example_Message_def)

text \<open>
  Claim C8. The path-rendering rule \<^verbatim>\<open>pushPath\<close> stops at its precondition exactly when
  the relative path is empty and the skip reason is None; it never reaches \<^verbatim>\<open>Unexpected\<close>.
  For every other file reference it pushes, under the given label, the relative path when
  the skip reason is None, and otherwise the placeholder of the reason, \<open>(file unavailable)\<close>,
  \<open>(file too large)\<close> or \<open>(file skipped)\<close>, with the name and a space in front when a
  name is given.
\<close>

theorem pushPath_total:
  "(pushPath f label name' values = Inl ExpectsFailed
      \<longleftrightarrow> File.relativePath f = [] \<and> skipReason f = NoSkipReason)
   \<and> pushPath f label name' values \<noteq> Inl UnexpectedReached
   \<and> (File.relativePath f \<noteq> [] \<or> skipReason f \<noteq> NoSkipReason \<longrightarrow>
        pushPath f label name' values =
          Inr (push label
                 (if skipReason f = NoSkipReason then File.relativePath f
                  else (if name' = [] then [] else name' @ '' '')
                       @ (case skipReason f of
                            Unavailable \<Rightarrow> ''(file unavailable)''
                          | FileSize \<Rightarrow> ''(file too large)''
                          | FileType \<Rightarrow> ''(file skipped)''
                          | NoSkipReason \<Rightarrow> []))
                 values))"
  by (cases "skipReason f")
    (simp_all add: pushPath_def pathText_def FormatFilePath_def Let_def)

text \<open>A sticker that was too large, and a file reference that breaks the precondition.\<close>

theorem pushPath_total_witness:
  "(pushPath \<lparr> File.relativePath = [], skipReason = FileSize \<rparr> ''Sticker'' ''Sticker'' [] = Inl ExpectsFailed
      \<longleftrightarrow> False)
   \<and> pushPath \<lparr> File.relativePath = [], skipReason = FileSize \<rparr> ''Sticker'' ''Sticker'' []
       = Inr [(''Sticker'', ''Sticker (file too large)'')]
   \<and> pushPath \<lparr> File.relativePath = [], skipReason = NoSkipReason \<rparr> ''Photo'' [] []
       = Inl ExpectsFailed"
  using pushPath_total [of "\<lparr> File.relativePath = [], skipReason = FileSize \<rparr>" "''Sticker''" "''Sticker''" "[]"]
    pushPath_total [of "\<lparr> File.relativePath = [], skipReason = NoSkipReason \<rparr>" "''Photo''" "[]" "[]"]
  by (simp add: push_def)

text \<open>
  Claim C4, as amended. For every non-empty value, \<^verbatim>\<open>SerializeKeyValue\<close> emits for its pair:
  if the value contains no line break, the key, \<open>": "\<close>, the value and the line
  terminator; if it contains line breaks, the key, a colon and the line terminator, and
  then every line of the value prefixed with \<open>"> "\<close> and ended by the line terminator.
  The lines are those of \<open>spec_value_lines\<close>: a carriage return in front of a line feed
  is dropped and every other byte of a line is kept. A value that contains \<open>k\<close> line
  breaks gives \<open>k + 1\<close> lines when it does not end with a line feed and \<open>k\<close> lines when
  it does, since nothing is emitted after a final line feed. No line holds a line feed,
  and for a value without carriage returns the lines joined by line feeds are the value
  again, up to a line feed at its end. The pair may stand anywhere in the field list.
\<close>

theorem multiline_value_lines:
  "v \<noteq> [] \<Longrightarrow>
     SerializeKeyValue os (before @ [(key, v)] @ rest)
       = SerializeKeyValue os before
         @ (if LF \<in> set v
            then key @ '':'' @ kLineBreak os
                 @ concat (map (\<lambda>l. ''> '' @ l @ kLineBreak os) (spec_value_lines v))
            else key @ '': '' @ v @ kLineBreak os)
         @ SerializeKeyValue os rest
     \<and> length (spec_value_lines v) = (if last v = LF then line_breaks v else line_breaks v + 1)
     \<and> LF \<notin> set (concat (spec_value_lines v))
     \<and> (CR \<notin> set v \<longrightarrow>
          JoinList [LF] (spec_value_lines v) = (if last v = LF then butlast v else v))"
proof -
  assume ne: "v \<noteq> []"
  then have "SerializeKeyValue os (before @ [(key, v)] @ rest)
       = SerializeKeyValue os before
         @ (if LF \<in> set v
            then key @ '':'' @ kLineBreak os
                 @ concat (map (\<lambda>l. ''> '' @ l @ kLineBreak os) (spec_value_lines v))
            else key @ '': '' @ v @ kLineBreak os)
         @ SerializeKeyValue os rest"
    by (simp add: SerializeKeyValue_append SerializeKeyValue_Cons line_group_def quoted_lines_def)
  moreover have "LF \<notin> set (concat (spec_value_lines v))"
    unfolding spec_value_lines_def by (rule lines_acc_LF_free) simp
  moreover have "JoinList [LF] (spec_value_lines v) = (if last v = LF then butlast v else v)"
    if "CR \<notin> set v"
    using joined_lines_acc [of "[]" v] that ne by (simp add: JoinList_joined spec_value_lines_def)
  moreover have "length (spec_value_lines v)
                   = (if last v = LF then line_breaks v else line_breaks v + 1)"
    using ne by (rule length_value_lines)
  ultimately show ?thesis
    by simp
qed

text \<open>
  A value of four lines, one of them empty, with a Windows line break after the first; a
  value of two lines that ends with a line feed; and a value of a single line.
\<close>

theorem multiline_value_lines_witness:
  "SerializeKeyValue Windows [(''Key'', ''a'' @ [CR, LF] @ ''b'' @ [LF, LF] @ ''c'' @ [CR])]
       = ''Key:'' @ [CR, LF] @ ''> a'' @ [CR, LF] @ ''> b'' @ [CR, LF] @ ''> '' @ [CR, LF]
         @ ''> c'' @ [CR] @ [CR, LF]
   \<and> spec_value_lines (''a'' @ [CR, LF] @ ''b'' @ [LF, LF] @ ''c'' @ [CR])
       = [''a'', ''b'', [], ''c'' @ [CR]]
   \<and> line_breaks (''a'' @ [CR, LF] @ ''b'' @ [LF, LF] @ ''c'' @ [CR]) = 3
   \<and> CR \<notin> set (''x'' @ [LF] @ ''y'' @ [LF])
   \<and> SerializeKeyValue Other [(''Key'', ''x'' @ [LF] @ ''y'' @ [LF])]
       = ''Key:'' @ [LF] @ ''> x'' @ [LF] @ ''> y'' @ [LF]
   \<and> line_breaks (''x'' @ [LF] @ ''y'' @ [LF]) = 2
   \<and> length (spec_value_lines (''x'' @ [LF] @ ''y'' @ [LF])) = 2
   \<and> JoinList [LF] (spec_value_lines (''x'' @ [LF] @ ''y'' @ [LF])) = ''x'' @ [LF] @ ''y''
   \<and> SerializeKeyValue Other [(''Key'', ''abc'')] = ''Key: abc'' @ [LF]"
  using multiline_value_lines [of "''a'' @ [CR, LF] @ ''b'' @ [LF, LF] @ ''c'' @ [CR]" Windows "[]" "''Key''" "[]"]
    multiline_value_lines [of "''x'' @ [LF] @ ''y'' @ [LF]" Other "[]" "''Key''" "[]"]
    multiline_value_lines [of "''abc''" Other "[]" "''Key''" "[]"]
  by (simp add: SerializeKeyValue_Nil spec_value_lines_def strip_cr_def line_breaks_def
      kLineBreak_def LF_def CR_def)

text \<open>
  The claim as stated gives \<open>k + 1\<close> quoted lines for a value with \<open>k\<close> line breaks. This
  value contains two line breaks, and two lines are emitted for it, not three.
\<close>

theorem multiline_value_lines_counterexample:
  "line_breaks (''x'' @ [LF] @ ''y'' @ [LF]) = 2
   \<and> SerializeKeyValue Other [(''Key'', ''x'' @ [LF] @ ''y'' @ [LF])]
       = ''Key:'' @ [LF] @ ''> x'' @ [LF] @ ''> y'' @ [LF]
   \<and> length (spec_value_lines (''x'' @ [LF] @ ''y'' @ [LF]))
       \<noteq> line_breaks (''x'' @ [LF] @ ''y'' @ [LF]) + 1"
  by (simp add: SerializeKeyValue_Cons SerializeKeyValue_Nil line_group_def quoted_lines_def
      spec_value_lines_def strip_cr_def line_breaks_def kLineBreak_def LF_def CR_def)

lemma MessageValues_parts:
  assumes "MessageValues h os m ps ld = Inr vs"
  obtains a md where "pushActionContent h ps m [] = Inr a"
    and "pushMediaContent h os ps ld m [] = Inr md"
    and "vs = base_fields h m @ a @ pushUnlessAction h ps m [] @ md @ push ''Text'' (text' m) []"
  using assms unfolding MessageValues_decomp
  by (cases "pushActionContent h ps m []"; cases "pushMediaContent h os ps ld m []") auto

lemma keys_base_fields: "keys (base_fields h m) = {''ID'', ''Date'', ''Edited''}"
  by (auto simp: base_fields_def keys_def)

lemma keys_union: "keys (xs @ ys) = keys xs \<union> keys ys"
  by (auto simp: keys_def)

lemma not_in_action_keys:
  "''From'' \<notin> action_keys" "''Author'' \<notin> action_keys" "''Forwarded from'' \<notin> action_keys"
  "''Reply to message'' \<notin> action_keys" "''Via'' \<notin> action_keys" "''Location'' \<notin> action_keys"
  by (simp_all add: action_keys_def)

lemma not_in_media_keys:
  "''From'' \<notin> media_keys" "''Author'' \<notin> media_keys" "''Forwarded from'' \<notin> media_keys"
  "''Reply to message'' \<notin> media_keys" "''Via'' \<notin> media_keys" "''Actor'' \<notin> media_keys"
  by (simp_all add: media_keys_def)

lemma not_in_unless_keys: "''Actor'' \<notin> unless_keys" "''Location'' \<notin> unless_keys"
  by (simp_all add: unless_keys_def)

text \<open>
  Claim C1, as amended. When \<open>MessageValues\<close> yields the field list of a message: if the
  action is of a kind other than payment-sent, bot-allowed and secure-values-sent and the
  sender id is not zero, the list begins with the ID, Date and Edited entries followed by
  an \<open>Actor\<close> field that holds the sender name (\<open>(unknown user)\<close> for a sender without a
  name); if the action is payment-sent, bot-allowed or secure-values-sent, or there is no
  action, or the sender id is zero, the list has no \<open>Actor\<close> field at all.
\<close>

theorem actor_field_first:
  "MessageValues h os m ps ld = Inr vs \<Longrightarrow>
     (emitsActor (ServiceAction.content (action m)) \<and> fromId m \<noteq> 0 \<longrightarrow>
        take 4 vs = [(''ID'', NumberToString (id' m)),
                     (''Date'', FormatDateTime h (date m)),
                     (''Edited'', FormatDateTime h (edited m)),
                     (''Actor'', wrapUserName h ps (fromId m))])
     \<and> (\<not> emitsActor (ServiceAction.content (action m)) \<or> fromId m = 0 \<longrightarrow>
          ''Actor'' \<notin> fst ` set vs)"
proof -
  assume mv: "MessageValues h os m ps ld = Inr vs"
  then obtain a md where a: "pushActionContent h ps m [] = Inr a"
    and md: "pushMediaContent h os ps ld m [] = Inr md"
    and vs: "vs = base_fields h m @ a @ pushUnlessAction h ps m [] @ md @ push ''Text'' (text' m) []"
    by (rule MessageValues_parts)
  have first: "take 4 vs = base_fields h m @ [(''Actor'', wrapUserName h ps (fromId m))]"
    if "emitsActor (ServiceAction.content (action m))" "fromId m \<noteq> 0"
  proof -
    have t: "take 1 a = [(''Actor'', wrapUserName h ps (fromId m))]"
      using that a by (rule actor_first)
    then obtain r where "a = (''Actor'', wrapUserName h ps (fromId m)) # r"
      by (cases a) auto
    then show ?thesis
      by (simp add: vs base_fields_def)
  qed
  have none: "''Actor'' \<notin> keys vs"
    if "\<not> emitsActor (ServiceAction.content (action m)) \<or> fromId m = 0"
  proof -
    have "keys a \<subseteq> action_keys - {''Actor''}"
      using that a by (rule no_actor)
    moreover have "keys md \<subseteq> media_keys"
      using md by (rule keys_pushMediaContent)
    moreover have "keys (pushUnlessAction h ps m []) \<subseteq> unless_keys"
      by (rule keys_pushUnlessAction)
    moreover have "keys (push ''Text'' (text' m) []) \<subseteq> {''Text''}"
      by (rule keys_push) simp
    ultimately show ?thesis
      using not_in_media_keys(6) not_in_unless_keys(1)
      by (auto simp: vs keys_union keys_base_fields)
  qed
  show ?thesis
    using first none by (simp add: base_fields_def keys_def)
qed

text \<open>
  A member that Alice removes from a group, and a login that allowed a bot to send
  messages.
\<close>

theorem actor_field_first_witness:
  "MessageValues example_Helpers Other
       (example_Message \<lparr> action := \<lparr> ServiceAction.content = ActionChatDeleteUser 7 \<rparr> \<rparr>)
       example_peers [] =
     Inr [(''ID'', ''1''), (''Date'', []), (''Edited'', []), (''Actor'', ''Alice''),
          (''Action'', ''Remove members''), (''Member'', ''(unknown user)''), (''Text'', ''hi'')]
   \<and> take 4 [(''ID'', ''1''), (''Date'', []), (''Edited'', []), (''Actor'', ''Alice''),
          (''Action'', ''Remove members''), (''Member'', ''(unknown user)''), (''Text'', ''hi'')]
       = [(''ID'', ''1''), (''Date'', []), (''Edited'', []), (''Actor'', ''Alice'')]
   \<and> MessageValues example_Helpers Other
       (example_Message \<lparr> action := \<lparr> ServiceAction.content = ActionBotAllowed ''example.org'' \<rparr> \<rparr>)
       example_peers [] =
     Inr [(''ID'', ''1''), (''Date'', []), (''Edited'', []),
          (''Action'', ''Allow sending messages''),
          (''Reason'', ''Login on '' @ [CHR 0x22] @ ''example.org'' @ [CHR 0x22]),
          (''Text'', ''hi'')]
   \<and> ''Actor'' \<notin> fst ` set [(''ID'', ''1''), (''Date'', []), (''Edited'', []),
          (''Action'', ''Allow sending messages''),
          (''Reason'', ''Login on '' @ [CHR 0x22] @ ''example.org'' @ [CHR 0x22]),
          (''Text'', ''hi'')]"
proof -
  have one: "NumberToString 1 = ''1''"
    by (simp add: NumberToString_def NumberToStringFilled_def decimal.simps digit_char_def)
  have five: "fromId example_Message = 5"
    by (simp add: example_Message_def)
  have names: "wrapUserName example_Helpers example_peers 5 = ''Alice''"
    "wrapUserName example_Helpers example_peers 7 = ''(unknown user)''"
    by (simp_all add: wrapUserName_def user_def peer_def Peer_user_def empty_User_def
        example_Helpers_def example_peers_def)
  have mv: "MessageValues example_Helpers Other
       (example_Message \<lparr> action := \<lparr> ServiceAction.content = ActionChatDeleteUser 7 \<rparr> \<rparr>)
       example_peers [] =
     Inr [(''ID'', ''1''), (''Date'', []), (''Edited'', []), (''Actor'', ''Alice''),
          (''Action'', ''Remove members''), (''Member'', ''(unknown user)''), (''Text'', ''hi'')]"
    by (simp add: MessageValues_def pushActionContent_def pushUnlessAction_def
        pushMediaContent_def pushActor_def pushFrom_def pushAction_def push_def names one
        example_Message_def Let_def)
      (simp add: example_Helpers_def)
  have mv2: "MessageValues example_Helpers Other
       (example_Message \<lparr> action := \<lparr> ServiceAction.content = ActionBotAllowed ''example.org'' \<rparr> \<rparr>)
       example_peers [] =
     Inr [(''ID'', ''1''), (''Date'', []), (''Edited'', []),
          (''Action'', ''Allow sending messages''),
          (''Reason'', ''Login on '' @ [CHR 0x22] @ ''example.org'' @ [CHR 0x22]),
          (''Text'', ''hi'')]"
    by (simp add: MessageValues_def pushActionContent_def pushUnlessAction_def
        pushMediaContent_def pushAction_def push_def one example_Message_def Let_def)
      (simp add: example_Helpers_def)
  have e1: "emitsActor (ServiceAction.content (action
       (example_Message \<lparr> action := \<lparr> ServiceAction.content = ActionChatDeleteUser 7 \<rparr> \<rparr>)))"
    and e2: "\<not> emitsActor (ServiceAction.content (action
       (example_Message \<lparr> action := \<lparr> ServiceAction.content = ActionBotAllowed ''example.org'' \<rparr> \<rparr>)))"
    by (simp_all add: emitsActor_def)
  show ?thesis
    using actor_field_first [OF mv] actor_field_first [OF mv2] mv mv2 e1 e2 five
    by simp
qed

text \<open>
  The claim as stated fails for a secure-values-sent message with a sender: it is neither
  payment-sent nor bot-allowed, and its field list has no \<open>Actor\<close> field.
\<close>

theorem actor_field_counterexample:
  "MessageValues example_Helpers Other
       (example_Message \<lparr> action := \<lparr> ServiceAction.content = ActionSecureValuesSent [Passport] \<rparr> \<rparr>)
       example_peers [] =
     Inr [(''ID'', ''1''), (''Date'', []), (''Edited'', []),
          (''Action'', ''Send Telegram Passport values''), (''Value'', ''Passport''),
          (''Text'', ''hi'')]
   \<and> fromId (example_Message
        \<lparr> action := \<lparr> ServiceAction.content = ActionSecureValuesSent [Passport] \<rparr> \<rparr>) = 5"
  by (simp add: MessageValues_def pushActionContent_def pushUnlessAction_def
      pushMediaContent_def pushAction_def push_def secureValueTypeText_def
      example_Message_def example_Helpers_def
      NumberToString_def NumberToStringFilled_def decimal.simps digit_char_def Let_def)

lemma pushUnlessAction_NoAction:
  assumes "ServiceAction.content (action m) = NoAction"
  shows "pushUnlessAction h ps m [] =
     (if fromId m \<noteq> 0 then [(''From'', wrapUserName h ps (fromId m))] else [])
     @ (if signature m \<noteq> [] then [(''Author'', signature m)] else [])
     @ (if forwardedFromId m \<noteq> 0
        then [(''Forwarded from'', wrapPeerName ps (forwardedFromId m))] else [])
     @ (if replyToMsgId m \<noteq> 0
        then [(''Reply to message'', ''ID-'' @ NumberToString (replyToMsgId m))] else [])
     @ (if viaBotId m \<noteq> 0 \<and> User.username (user h ps (viaBotId m)) \<noteq> []
        then [(''Via'', User.username (user h ps (viaBotId m)))] else [])"
  using assms
  by (simp add: pushUnlessAction_def Let_def push_appends pushFrom_def pushReplyToMsgId_def
      push_def wrapUserName_nonempty wrapPeerName_nonempty)

text \<open>
  Claim C5, as amended. When \<open>MessageValues\<close> yields the field list of a message with no
  action, the list is the ID, Date and Edited entries, then the sender (\<open>From\<close>), the
  author signature, the forwarded-from peer, the reply target and the via-bot username,
  each only if its underlying value is not empty or zero, then the media fields, then the
  text: the five fields stand in front of the media fields. When the message carries an
  action, none of the five keys occurs in the list.
\<close>

theorem fields_unless_action:
  "MessageValues h os m ps ld = Inr vs \<Longrightarrow>
     (ServiceAction.content (action m) = NoAction \<longrightarrow>
        (case pushMediaContent h os ps ld m [] of
           Inl e \<Rightarrow> False
         | Inr md \<Rightarrow>
             vs = [(''ID'', NumberToString (id' m)),
                   (''Date'', FormatDateTime h (date m)),
                   (''Edited'', FormatDateTime h (edited m))]
                  @ (if fromId m \<noteq> 0 then [(''From'', wrapUserName h ps (fromId m))] else [])
                  @ (if signature m \<noteq> [] then [(''Author'', signature m)] else [])
                  @ (if forwardedFromId m \<noteq> 0
                     then [(''Forwarded from'', wrapPeerName ps (forwardedFromId m))] else [])
                  @ (if replyToMsgId m \<noteq> 0
                     then [(''Reply to message'', ''ID-'' @ NumberToString (replyToMsgId m))]
                     else [])
                  @ (if viaBotId m \<noteq> 0 \<and> User.username (user h ps (viaBotId m)) \<noteq> []
                     then [(''Via'', User.username (user h ps (viaBotId m)))] else [])
                  @ md
                  @ (if text' m \<noteq> [] then [(''Text'', text' m)] else [])))
     \<and> (ServiceAction.content (action m) \<noteq> NoAction \<longrightarrow>
          fst ` set vs \<inter> {''From'', ''Author'', ''Forwarded from'', ''Reply to message'', ''Via''}
            = {})"
proof -
  assume mv: "MessageValues h os m ps ld = Inr vs"
  then obtain a md where a: "pushActionContent h ps m [] = Inr a"
    and md: "pushMediaContent h os ps ld m [] = Inr md"
    and vs: "vs = base_fields h m @ a @ pushUnlessAction h ps m [] @ md @ push ''Text'' (text' m) []"
    by (rule MessageValues_parts)
  have one: "vs = base_fields h m @ pushUnlessAction h ps m [] @ md
                  @ (if text' m \<noteq> [] then [(''Text'', text' m)] else [])"
    if "ServiceAction.content (action m) = NoAction"
    using that a vs by (simp add: pushActionContent_NoAction push_def)
  have two: "keys vs \<inter> unless_keys = {}"
    if "ServiceAction.content (action m) \<noteq> NoAction"
  proof -
    have "keys a \<subseteq> action_keys"
      using a by (rule keys_pushActionContent)
    moreover have "keys md \<subseteq> media_keys"
      using md by (rule keys_pushMediaContent)
    moreover have "keys (push ''Text'' (text' m) []) \<subseteq> {''Text''}"
      by (rule keys_push) simp
    ultimately show ?thesis
      using not_in_action_keys not_in_media_keys that
      by (auto simp: vs keys_union keys_base_fields pushUnlessAction_action unless_keys_def)
  qed
  show ?thesis
    using one two md
    by (auto simp: base_fields_def keys_def unless_keys_def pushUnlessAction_NoAction)
qed

text \<open>A photo that Alice sent, with no action, and a message that Alice pinned.\<close>

theorem fields_unless_action_witness:
  "MessageValues example_Helpers Other
       (example_Message \<lparr> media := \<lparr> Media.content = MediaPhoto \<lparr> image =
          \<lparr> Image.width = 0, Image.height = 0,
            Image.file' = \<lparr> File.relativePath = ''p.jpg'', skipReason = NoSkipReason \<rparr> \<rparr> \<rparr>,
          ttl = 0 \<rparr> \<rparr>)
       example_peers [] =
     Inr [(''ID'', ''1''), (''Date'', []), (''Edited'', []), (''From'', ''Alice''),
          (''Photo'', ''p.jpg''), (''Text'', ''hi'')]
   \<and> pushMediaContent example_Helpers Other example_peers []
       (example_Message \<lparr> media := \<lparr> Media.content = MediaPhoto \<lparr> image =
          \<lparr> Image.width = 0, Image.height = 0,
            Image.file' = \<lparr> File.relativePath = ''p.jpg'', skipReason = NoSkipReason \<rparr> \<rparr> \<rparr>,
          ttl = 0 \<rparr> \<rparr>) []
     = Inr [(''Photo'', ''p.jpg'')]
   \<and> MessageValues example_Helpers Other
       (example_Message \<lparr> replyToMsgId := 3,
          action := \<lparr> ServiceAction.content = ActionPinMessage \<rparr> \<rparr>)
       example_peers [] =
     Inr [(''ID'', ''1''), (''Date'', []), (''Edited'', []), (''Actor'', ''Alice''),
          (''Action'', ''Pin message''), (''Message'', ''ID-3''), (''Text'', ''hi'')]
   \<and> fst ` set [(''ID'', ''1''), (''Date'', []), (''Edited'', []), (''Actor'', ''Alice''),
          (''Action'', ''Pin message''), (''Message'', ''ID-3''), (''Text'', ''hi'')]
       \<inter> {''From'', ''Author'', ''Forwarded from'', ''Reply to message'', ''Via''} = {}"
proof -
  have n: "NumberToString 1 = ''1''" "NumberToString 3 = ''3''"
    by (simp_all add: NumberToString_def NumberToStringFilled_def decimal.simps digit_char_def)
  have alice: "wrapUserName example_Helpers example_peers 5 = ''Alice''"
    by (simp add: wrapUserName_def user_def peer_def Peer_user_def example_Helpers_def
        example_peers_def)
  have mv: "MessageValues example_Helpers Other
       (example_Message \<lparr> media := \<lparr> Media.content = MediaPhoto \<lparr> image =
          \<lparr> Image.width = 0, Image.height = 0,
            Image.file' = \<lparr> File.relativePath = ''p.jpg'', skipReason = NoSkipReason \<rparr> \<rparr> \<rparr>,
          ttl = 0 \<rparr> \<rparr>)
       example_peers [] =
     Inr [(''ID'', ''1''), (''Date'', []), (''Edited'', []), (''From'', ''Alice''),
          (''Photo'', ''p.jpg''), (''Text'', ''hi'')]"
    by (simp add: MessageValues_def pushActionContent_def pushUnlessAction_def
        pushMediaContent_def pushPhoto_def pushPath_def pathText_def FormatFilePath_def
        pushTTL_def pushReplyToMsgId_def pushFrom_def push_def alice n
        example_Message_def Let_def)
      (simp add: example_Helpers_def)
  have mv2: "MessageValues example_Helpers Other
       (example_Message \<lparr> replyToMsgId := 3,
          action := \<lparr> ServiceAction.content = ActionPinMessage \<rparr> \<rparr>)
       example_peers [] =
     Inr [(''ID'', ''1''), (''Date'', []), (''Edited'', []), (''Actor'', ''Alice''),
          (''Action'', ''Pin message''), (''Message'', ''ID-3''), (''Text'', ''hi'')]"
    by (simp add: MessageValues_def pushActionContent_def pushUnlessAction_def
        pushMediaContent_def pushActor_def pushAction_def pushReplyToMsgId_def pushFrom_def
        push_def alice n example_Message_def Let_def)
      (simp add: example_Helpers_def)
  show ?thesis
    using fields_unless_action [OF mv] fields_unless_action [OF mv2] mv mv2
    by (simp add: example_Message_def split: sum.splits)
qed

text \<open>
  The claim as stated puts the five fields after the media fields; in the field list of
  this message with no action the \<open>From\<close> field stands in front of the \<open>Photo\<close> field.
\<close>

theorem fields_unless_action_counterexample:
  "MessageValues example_Helpers Other
       (example_Message \<lparr> media := \<lparr> Media.content = MediaPhoto \<lparr> image =
          \<lparr> Image.width = 0, Image.height = 0,
            Image.file' = \<lparr> File.relativePath = ''p.jpg'', skipReason = NoSkipReason \<rparr> \<rparr> \<rparr>,
          ttl = 0 \<rparr> \<rparr>)
       example_peers [] =
     Inr [(''ID'', ''1''), (''Date'', []), (''Edited'', []), (''From'', ''Alice''),
          (''Photo'', ''p.jpg''), (''Text'', ''hi'')]"
  by (simp add: MessageValues_def pushActionContent_def pushUnlessAction_def
      pushMediaContent_def pushPhoto_def pushPath_def pathText_def FormatFilePath_def
      pushTTL_def pushReplyToMsgId_def pushFrom_def push_def wrapUserName_def
      user_def peer_def Peer_user_def empty_User_def example_Message_def example_Helpers_def
      example_peers_def NumberToString_def NumberToStringFilled_def decimal.simps
      digit_char_def Let_def)

lemma joined_two_nonempty: "sep \<noteq> [] \<Longrightarrow> joined sep (x # y # ys) \<noteq> []"
  by simp

lemma secureValueTypeText_empty_iff: "secureValueTypeText t = [] \<longleftrightarrow> t = UnrecognizedType"
  by (cases t) (simp_all add: secureValueTypeText_def)

lemma example_wrapUserName: "wrapUserName example_Helpers example_peers 5 = ''Alice''"
  by (simp add: wrapUserName_def user_def peer_def Peer_user_def example_Helpers_def
      example_peers_def)

lemma NumberToString_12: "NumberToString 12 = ''12''"
  by (simp add: NumberToString_def NumberToStringFilled_def decimal.simps digit_char_def)

text \<open>
  Claim C9, as amended. A phone-call action pushes the actor (for a sender id other than
  zero), the action, a \<open>Duration\<close> field only when the duration is not zero, and a
  \<open>Discard reason\<close> field that holds exactly \<open>Busy\<close>, \<open>Disconnect\<close>, \<open>Hangup\<close> or
  \<open>Missed\<close>; for an unrecognized discard reason the value is empty and no such field is
  pushed. A secure-values-sent action pushes the action and, for a single type, a \<open>Value\<close>
  field with its label, which is empty and not pushed for an unrecognized type; for two
  or more types it pushes a \<open>Values\<close> field with the labels joined by \<open>", "\<close>, where an
  unrecognized type is an empty entry. Neither handler fails.
\<close>

theorem unrecognized_enum_fields:
  "(ServiceAction.content (action m) = ActionPhoneCall reason dur \<longrightarrow>
      pushActionContent h ps m vs =
        Inr (vs
             @ (if fromId m \<noteq> 0 then [(''Actor'', wrapUserName h ps (fromId m))] else [])
             @ [(''Action'', ''Phone call'')]
             @ (if dur \<noteq> 0 then [(''Duration'', NumberToString dur @ '' sec.'')] else [])
             @ (case reason of
                  Busy \<Rightarrow> [(''Discard reason'', ''Busy'')]
                | Disconnect \<Rightarrow> [(''Discard reason'', ''Disconnect'')]
                | Hangup \<Rightarrow> [(''Discard reason'', ''Hangup'')]
                | Missed \<Rightarrow> [(''Discard reason'', ''Missed'')]
                | UnrecognizedReason \<Rightarrow> [])))
   \<and> (ServiceAction.content (action m) = ActionSecureValuesSent types \<longrightarrow>
        pushActionContent h ps m vs =
          Inr (vs
               @ [(''Action'', ''Send Telegram Passport values'')]
               @ (case types of
                    [] \<Rightarrow> []
                  | [t] \<Rightarrow> (if t = UnrecognizedType then []
                             else [(''Value'', secureValueTypeText t)])
                  | t # u # ts \<Rightarrow>
                      [(''Values'', JoinList '', '' (map secureValueTypeText types))])))
   \<and> secureValueTypeText UnrecognizedType = []
   \<and> discardReasonText UnrecognizedReason = []"
proof -
  have phone: "pushActionContent h ps m vs =
        Inr (vs
             @ (if fromId m \<noteq> 0 then [(''Actor'', wrapUserName h ps (fromId m))] else [])
             @ [(''Action'', ''Phone call'')]
             @ (if dur \<noteq> 0 then [(''Duration'', NumberToString dur @ '' sec.'')] else [])
             @ (case reason of
                  Busy \<Rightarrow> [(''Discard reason'', ''Busy'')]
                | Disconnect \<Rightarrow> [(''Discard reason'', ''Disconnect'')]
                | Hangup \<Rightarrow> [(''Discard reason'', ''Hangup'')]
                | Missed \<Rightarrow> [(''Discard reason'', ''Missed'')]
                | UnrecognizedReason \<Rightarrow> []))"
    if "ServiceAction.content (action m) = ActionPhoneCall reason dur"
    using that
    by (cases reason)
      (simp_all add: pushActionContent_def Let_def pushActor_def pushFrom_def pushAction_def
        push_def discardReasonText_def wrapUserName_nonempty)
  have secure: "pushActionContent h ps m vs =
          Inr (vs
               @ [(''Action'', ''Send Telegram Passport values'')]
               @ (case types of
                    [] \<Rightarrow> []
                  | [t] \<Rightarrow> (if t = UnrecognizedType then []
                             else [(''Value'', secureValueTypeText t)])
                  | t # u # ts \<Rightarrow>
                      [(''Values'', JoinList '', '' (map secureValueTypeText types))]))"
    if c: "ServiceAction.content (action m) = ActionSecureValuesSent types"
  proof (cases types)
    case Nil
    then show ?thesis
      using c by (simp add: pushActionContent_def Let_def pushAction_def push_def)
  next
    case (Cons t rest)
    show ?thesis
    proof (cases rest)
      case Nil
      then show ?thesis
        using c Cons
        by (simp add: pushActionContent_def Let_def pushAction_def push_def
            secureValueTypeText_empty_iff)
    next
      case (Cons u ts)
      have "JoinList '', '' (map secureValueTypeText types) \<noteq> []"
        unfolding JoinList_joined using \<open>types = t # rest\<close> Cons by simp
      then show ?thesis
        using c Cons \<open>types = t # rest\<close>
        by (simp add: pushActionContent_def Let_def pushAction_def push_def)
    qed
  qed
  show ?thesis
    using phone secure by (simp add: secureValueTypeText_def discardReasonText_def)
qed

text \<open>
  A call of twelve seconds with an unrecognized discard reason, and a single unrecognized
  secure value.
\<close>

theorem unrecognized_enum_fields_witness:
  "pushActionContent example_Helpers example_peers
       (example_Message
          \<lparr> action := \<lparr> ServiceAction.content = ActionPhoneCall UnrecognizedReason 12 \<rparr> \<rparr>) []
     = Inr [(''Actor'', ''Alice''), (''Action'', ''Phone call''), (''Duration'', ''12 sec.'')]
   \<and> pushActionContent example_Helpers example_peers
       (example_Message
          \<lparr> action := \<lparr> ServiceAction.content = ActionSecureValuesSent [UnrecognizedType] \<rparr> \<rparr>) []
     = Inr [(''Action'', ''Send Telegram Passport values'')]"
  using unrecognized_enum_fields [of "example_Message
          \<lparr> action := \<lparr> ServiceAction.content = ActionPhoneCall UnrecognizedReason 12 \<rparr> \<rparr>"
        UnrecognizedReason 12 example_Helpers example_peers "[]" "[]"]
    unrecognized_enum_fields [of "example_Message
          \<lparr> action := \<lparr> ServiceAction.content = ActionSecureValuesSent [UnrecognizedType] \<rparr> \<rparr>"
        Busy 0 example_Helpers example_peers "[]" "[UnrecognizedType]"]
  by (simp add: example_Message_def example_wrapUserName NumberToString_12)

text \<open>
  The claim as stated says that the field of an unrecognized value is empty and then
  omitted. A passport followed by an unrecognized type gives a \<open>Values\<close> field that is
  not empty, and it is part of the output.
\<close>

theorem unrecognized_enum_counterexample:
  "SerializeMessage example_Helpers Other
       (example_Message
          \<lparr> action := \<lparr> ServiceAction.content =
               ActionSecureValuesSent [Passport, UnrecognizedType] \<rparr> \<rparr>)
       example_peers [] =
     Inr (''ID: 1'' @ [LF] @ ''Action: Send Telegram Passport values'' @ [LF]
          @ ''Values: Passport, '' @ [LF] @ ''Text: hi'' @ [LF])"
proof -
  have "MessageValues example_Helpers Other
       (example_Message
          \<lparr> action := \<lparr> ServiceAction.content =
               ActionSecureValuesSent [Passport, UnrecognizedType] \<rparr> \<rparr>)
       example_peers [] =
     Inr [(''ID'', ''1''), (''Date'', []), (''Edited'', []),
          (''Action'', ''Send Telegram Passport values''), (''Values'', ''Passport, ''),
          (''Text'', ''hi'')]"
    by (simp add: MessageValues_def pushActionContent_def pushUnlessAction_def
        pushMediaContent_def pushAction_def push_def secureValueTypeText_def
        JoinList_joined example_Message_def example_Helpers_def
        NumberToString_def NumberToStringFilled_def decimal.simps digit_char_def Let_def)
  then show ?thesis
    by (simp add: SerializeMessage_def example_Message_def SerializeKeyValue_Cons
        SerializeKeyValue_Nil line_group_def kLineBreak_def LF_def)
qed


lemma keys_absent_subset: "keys xs \<subseteq> K \<Longrightarrow> k \<notin> K \<Longrightarrow> k \<notin> keys xs"
  by auto





section \<open>The claims about the writer\<close>

lemma digit_count_mono: "a \<le> b \<Longrightarrow> digit_count a \<le> digit_count b"
proof (induction b arbitrary: a rule: digit_count.induct)
  case (1 b)
  show ?case
  proof (cases "b < 10")
    case True
    then have "a < 10" using "1.prems" by simp
    then show ?thesis using True by (simp add: digit_count.simps)
  next
    case False
    show ?thesis
    proof (cases "a < 10")
      case True
      then show ?thesis using False by (simp add: digit_count.simps [of a] digit_count.simps [of b])
    next
      case a: False
      have "a div 10 \<le> b div 10" using "1.prems" by (rule div_le_mono)
      then have "digit_count (a div 10) \<le> digit_count (b div 10)"
        using "1.IH" False by simp
      then show ?thesis
        using a False by (simp add: digit_count.simps [of a] digit_count.simps [of b])
    qed
  qed
qed

lemma length_NumberToStringFilled:
  "0 \<le> n \<Longrightarrow> length (NumberToStringFilled n len filler) = max (nat len) (digit_count (nat n))"
  by (auto simp: NumberToStringFilled_def Let_def length_decimal)

text \<open>
  Claim C2, as amended. For a writer whose dialog index is not negative and below the
  total, \<^verbatim>\<open>writeChatStart\<close> succeeds on a closed chat handle and increments the index; the
  width \<^verbatim>\<open>digits\<close> it computes is the number of decimal digits of the total minus one.
  The zero-padded sequence number has exactly that many characters whenever the
  incremented index is below the total, and also for the last dialog of a list whose
  total has as many digits as the total minus one (every total but 10, 100, 1000 and so
  on). For a dialog list of size 11 the width is 2, and for one of size 101 it is 3.
\<close>

theorem sequence_number_width:
  "0 \<le> m_dialogIndex w \<Longrightarrow> m_dialogIndex w < m_dialogsCount w \<Longrightarrow>
     writeChatStart_digits w = int (digit_count (nat (m_dialogsCount w - 1)))
     \<and> (m_dialogIndex w + 1 < m_dialogsCount w
          \<or> digit_count (nat (m_dialogsCount w)) = digit_count (nat (m_dialogsCount w - 1)) \<longrightarrow>
          int (length (writeChatStart_number w)) = writeChatStart_digits w)
     \<and> (m_dialogsCount w = 11 \<longrightarrow> writeChatStart_digits w = 2)
     \<and> (m_dialogsCount w = 101 \<longrightarrow> writeChatStart_digits w = 3)
     \<and> (m_chat w = None \<longrightarrow>
          writeChatStart w data =
            Inr (Success,
                 w\<lparr> m_dialogIndex := m_dialogIndex w + 1,
                    m_chat := Some (fileWithRelativePath w
                                 (DialogInfo.relativePath data @ ''messages.txt'')),
                    m_messagesCount := 0,
                    m_dialog := data \<rparr>))"
proof -
  assume i0: "0 \<le> m_dialogIndex w" and lt: "m_dialogIndex w < m_dialogsCount w"
  have d: "writeChatStart_digits w = int (digit_count (nat (m_dialogsCount w - 1)))"
    using i0 lt by (simp add: writeChatStart_digits_def NumberToString_nonneg length_decimal)
  have len: "int (length (writeChatStart_number w)) = writeChatStart_digits w"
    if c: "m_dialogIndex w + 1 < m_dialogsCount w
           \<or> digit_count (nat (m_dialogsCount w)) = digit_count (nat (m_dialogsCount w - 1))"
  proof -
    have "digit_count (nat (m_dialogIndex w + 1)) \<le> digit_count (nat (m_dialogsCount w - 1))"
    proof (cases "m_dialogIndex w + 1 < m_dialogsCount w")
      case True
      then have "nat (m_dialogIndex w + 1) \<le> nat (m_dialogsCount w - 1)"
        using i0 by simp
      then show ?thesis
        by (rule digit_count_mono)
    next
      case False
      then have "m_dialogIndex w + 1 = m_dialogsCount w"
        using lt by simp
      then show ?thesis
        using c False by simp
    qed
    then show ?thesis
      using i0 by (simp add: writeChatStart_number_def length_NumberToStringFilled d)
  qed
  have e: "digit_count 10 = 2" "digit_count 100 = 3"
    by (simp_all add: digit_count.simps)
  show ?thesis
    using d len e i0 lt by (auto simp: writeChatStart_def Let_def)
qed

text \<open>
  The first and the last of eleven dialogs, the only dialog of a list of one, and the
  width for a hundred and one dialogs.
\<close>

theorem sequence_number_width_witness:
  "0 \<le> m_dialogIndex example_TextWriter
   \<and> m_dialogIndex example_TextWriter < m_dialogsCount example_TextWriter
   \<and> writeChatStart_digits example_TextWriter = 2
   \<and> writeChatStart_number example_TextWriter = ''01''
   \<and> m_dialogIndex (snd (projr (writeChatStart example_TextWriter example_Dialog))) = 1
   \<and> writeChatStart_number (example_TextWriter \<lparr> m_dialogIndex := 10 \<rparr>) = ''11''
   \<and> int (length (writeChatStart_number (example_TextWriter \<lparr> m_dialogIndex := 10 \<rparr>)))
       = writeChatStart_digits (example_TextWriter \<lparr> m_dialogIndex := 10 \<rparr>)
   \<and> writeChatStart_number (example_TextWriter \<lparr> m_dialogsCount := 1 \<rparr>) = ''1''
   \<and> int (length (writeChatStart_number (example_TextWriter \<lparr> m_dialogsCount := 1 \<rparr>)))
       = writeChatStart_digits (example_TextWriter \<lparr> m_dialogsCount := 1 \<rparr>)
   \<and> writeChatStart_digits (example_TextWriter \<lparr> m_dialogsCount := 101 \<rparr>) = 3"
proof -
  have idx: "m_dialogIndex example_TextWriter = 0"
    and cnt: "m_dialogsCount example_TextWriter = 11"
    and closed: "m_chat example_TextWriter = None"
    by (simp_all add: example_TextWriter_def)
  have i0: "0 \<le> m_dialogIndex example_TextWriter"
    and lt: "m_dialogIndex example_TextWriter < m_dialogsCount example_TextWriter"
    by (simp_all add: idx cnt)
  have dc: "digit_count 11 = 2" "digit_count 10 = 2" "digit_count 1 = 1" "digit_count 0 = 1"
    by (simp_all add: digit_count.simps)
  note t = sequence_number_width [OF i0 lt, of example_Dialog]
  have d: "writeChatStart_digits example_TextWriter = 2"
    using t cnt by simp
  have n: "writeChatStart_number example_TextWriter = ''01''"
    unfolding writeChatStart_number_def d idx
    by (simp add: NumberToStringFilled_def decimal.simps digit_char_def)
  have s: "m_dialogIndex (snd (projr (writeChatStart example_TextWriter example_Dialog))) = 1"
    using t closed idx by simp
  have d3: "writeChatStart_digits (example_TextWriter \<lparr> m_dialogsCount := 101 \<rparr>) = 3"
    using sequence_number_width [of "example_TextWriter \<lparr> m_dialogsCount := 101 \<rparr>" example_Dialog]
      idx
    by simp
  have last: "int (length (writeChatStart_number (example_TextWriter \<lparr> m_dialogIndex := 10 \<rparr>)))
       = writeChatStart_digits (example_TextWriter \<lparr> m_dialogIndex := 10 \<rparr>)"
    using sequence_number_width [of "example_TextWriter \<lparr> m_dialogIndex := 10 \<rparr>" example_Dialog]
      cnt dc
    by simp
  have only: "int (length (writeChatStart_number (example_TextWriter \<lparr> m_dialogsCount := 1 \<rparr>)))
       = writeChatStart_digits (example_TextWriter \<lparr> m_dialogsCount := 1 \<rparr>)"
    using sequence_number_width [of "example_TextWriter \<lparr> m_dialogsCount := 1 \<rparr>" example_Dialog]
      idx dc
    by simp
  have n11: "writeChatStart_number (example_TextWriter \<lparr> m_dialogIndex := 10 \<rparr>) = ''11''"
    by (simp add: writeChatStart_number_def writeChatStart_digits_def cnt NumberToString_def
        NumberToStringFilled_def decimal.simps digit_char_def)
  have n1: "writeChatStart_number (example_TextWriter \<lparr> m_dialogsCount := 1 \<rparr>) = ''1''"
    by (simp add: writeChatStart_number_def writeChatStart_digits_def idx NumberToString_def
        NumberToStringFilled_def decimal.simps digit_char_def)
  show ?thesis
    using i0 lt d n s d3 last only n11 n1 by simp
qed

text \<open>
  The claim as stated gives a width of one digit for a dialog list of size 11; the width
  computed there is 2.
\<close>

theorem sequence_number_width_counterexample:
  "m_dialogsCount example_TextWriter = 11
   \<and> writeChatStart_digits example_TextWriter \<noteq> 1
   \<and> writeChatStart_digits example_TextWriter = 2"
  by (simp add: example_TextWriter_def writeChatStart_digits_def NumberToString_def
      NumberToStringFilled_def decimal.simps digit_char_def)

text \<open>
  The one case the statement above leaves out. The width comes from the total minus one,
  while \<^verbatim>\<open>++_dialogIndex\<close> makes the numbers run from one to the total: in a list of ten
  dialogs the width is 1 and the tenth number is \<open>10\<close>, two characters. The number is
  not used after it is computed.
\<close>

lemma sequence_number_tenth_of_ten:
  "writeChatStart_digits (example_TextWriter \<lparr> m_dialogsCount := 10, m_dialogIndex := 9 \<rparr>) = 1
   \<and> writeChatStart_number (example_TextWriter \<lparr> m_dialogsCount := 10, m_dialogIndex := 9 \<rparr>)
       = ''10''"
  by (simp add: writeChatStart_number_def writeChatStart_digits_def NumberToString_def
      NumberToStringFilled_def decimal.simps digit_char_def)

text \<open>
  Claim C7. When \<^verbatim>\<open>writeChatStart\<close> is followed by \<^verbatim>\<open>writeChatEnd\<close> with no
  \<^verbatim>\<open>writeChatSlice\<close> in between, both succeed up to the outcome of the write, and the block
  handed to the chats file is the name and type fields, the count field with the value
  \<open>0\<close>, and the closing line terminator: there is no \<open>Content\<close> field.
\<close>

theorem chat_end_without_messages:
  "m_chat w = None \<Longrightarrow> m_dialogIndex w < m_dialogsCount w \<Longrightarrow> m_chats w = Some chats \<Longrightarrow>
     (case writeChatStart w data of
        Inl e \<Rightarrow> False
      | Inr (r1, w1) \<Rightarrow>
          r1 = Success \<and> m_messagesCount w1 = 0 \<and>
          writeChatEnd_values w1 =
            [(''Name'', NameString (DialogInfo.name data) (type' data)),
             (''Type'', TypeString (type' data)),
             (if onlyMyMessages data then ''Outgoing messages count'' else ''Messages count'',
              ''0''),
             (''Content'', [])] \<and>
          (case writeChatEnd h os w1 of
             Inl e \<Rightarrow> False
           | Inr (r2, w2) \<Rightarrow>
               (let block =
                      SerializeKeyValue os
                        [(''Name'', NameString (DialogInfo.name data) (type' data)),
                         (''Type'', TypeString (type' data))]
                      @ (if onlyMyMessages data then ''Outgoing messages count''
                         else ''Messages count'')
                      @ '': 0'' @ kLineBreak os @ kLineBreak os
                in m_chat w2 = None \<and>
                   (if writeSucceeds h (OutputFile.path chats) block
                    then r2 = Success \<and>
                         m_chats w2 = Some (chats\<lparr> written := written chats @ block \<rparr>)
                    else r2 = IoFailure \<and> m_chats w2 = Some chats))))"
proof -
  assume closed: "m_chat w = None" and lt: "m_dialogIndex w < m_dialogsCount w"
    and chats: "m_chats w = Some chats"
  define w1 where "w1 = w\<lparr> m_dialogIndex := m_dialogIndex w + 1,
                    m_chat := Some (fileWithRelativePath w
                                 (DialogInfo.relativePath data @ ''messages.txt'')),
                    m_messagesCount := 0,
                    m_dialog := data \<rparr>"
  have start: "writeChatStart w data = Inr (Success, w1)"
    using closed lt by (simp add: writeChatStart_def Let_def w1_def)
  have zero: "NumberToString 0 = ''0''"
    by (simp add: NumberToString_def NumberToStringFilled_def decimal.simps digit_char_def)
  have vals: "writeChatEnd_values (w1\<lparr> m_chat := None \<rparr>) =
            [(''Name'', NameString (DialogInfo.name data) (type' data)),
             (''Type'', TypeString (type' data)),
             (if onlyMyMessages data then ''Outgoing messages count'' else ''Messages count'',
              ''0''),
             (''Content'', [])]"
    by (simp add: writeChatEnd_values_def w1_def zero)
  have vals1: "writeChatEnd_values w1 = writeChatEnd_values (w1\<lparr> m_chat := None \<rparr>)"
    by (simp add: writeChatEnd_values_def)
  let ?block = "SerializeKeyValue os
        [(''Name'', NameString (DialogInfo.name data) (type' data)),
         (''Type'', TypeString (type' data))]
      @ (if onlyMyMessages data then ''Outgoing messages count'' else ''Messages count'')
      @ '': 0'' @ kLineBreak os @ kLineBreak os"
  have lg: "line_group os k ''0'' = k @ '': 0'' @ kLineBreak os" for k
    by (simp add: line_group_def LF_def)
  have line_group_empty: "line_group os k [] = []" for k
    by (simp add: line_group_def)
  have ser: "SerializeKeyValue os (writeChatEnd_values (w1\<lparr> m_chat := None \<rparr>)) @ kLineBreak os
               = ?block"
    unfolding vals
    using SerializeKeyValue_append [of os
        "[(''Name'', NameString (DialogInfo.name data) (type' data)),
          (''Type'', TypeString (type' data))]"
        "[(if onlyMyMessages data then ''Outgoing messages count'' else ''Messages count'', ''0''),
          (''Content'', [])]"]
    by (simp add: SerializeKeyValue_Cons SerializeKeyValue_Nil lg line_group_empty)
  have "end": "writeChatEnd h os w1 =
      (if writeSucceeds h (OutputFile.path chats) ?block
       then Inr (Success, w1\<lparr> m_chat := None,
                              m_chats := Some (chats\<lparr> written := written chats @ ?block \<rparr>) \<rparr>)
       else Inr (IoFailure, w1\<lparr> m_chat := None, m_chats := Some chats \<rparr>))"
  proof -
    have c1: "m_chats w1 = Some chats" "m_chat w1 \<noteq> None"
      using chats by (simp_all add: w1_def)
    show ?thesis
      unfolding writeChatEnd_def Let_def by (simp add: c1 ser writeBlock_def)
  qed
  show ?thesis
    by (simp add: start "end" vals1 vals Let_def) (simp add: w1_def)
qed

text \<open>The first dialog of the example writer, ended at once.\<close>

theorem chat_end_without_messages_witness:
  "m_chat example_TextWriter = None
   \<and> m_dialogIndex example_TextWriter < m_dialogsCount example_TextWriter
   \<and> m_chats example_TextWriter = Some \<lparr> OutputFile.path = ''out/chats.txt'', written = [] \<rparr>
   \<and> map_option written
       (m_chats (snd (projr (writeChatEnd example_Helpers Other
          (snd (projr (writeChatStart example_TextWriter example_Dialog)))))))
     = Some (''Name: Alice'' @ [LF] @ ''Type: Personal chat'' @ [LF]
             @ ''Messages count: 0'' @ [LF] @ [LF])"
proof -
  have a: "m_chat example_TextWriter = None"
    and b: "m_dialogIndex example_TextWriter < m_dialogsCount example_TextWriter"
    and c: "m_chats example_TextWriter = Some \<lparr> OutputFile.path = ''out/chats.txt'', written = [] \<rparr>"
    by (simp_all add: example_TextWriter_def)
  have ok: "writeSucceeds example_Helpers p blk" for p blk
    by (simp add: example_Helpers_def)
  note t = chat_end_without_messages [OF a b c, where data = example_Dialog
      and h = example_Helpers and os = Other]
  obtain r1 w1 where st: "writeChatStart example_TextWriter example_Dialog = Inr (r1, w1)"
    using t by (auto split: sum.splits)
  obtain r2 w2 where en: "writeChatEnd example_Helpers Other w1 = Inr (r2, w2)"
    using t st by (auto split: sum.splits)
  have "map_option written (m_chats w2)
     = Some (''Name: Alice'' @ [LF] @ ''Type: Personal chat'' @ [LF]
             @ ''Messages count: 0'' @ [LF] @ [LF])"
    using t st en
    by (simp add: ok Let_def example_Dialog_def NameString_def TypeString_def
        SerializeKeyValue_Cons SerializeKeyValue_Nil line_group_def kLineBreak_def LF_def)
  then show ?thesis
    using a b c st en by simp
qed

lemma line_group_nonempty: "v \<noteq> [] \<Longrightarrow> k \<noteq> [] \<Longrightarrow> line_group os k v \<noteq> []"
  by (simp add: line_group_def)

lemma SerializeMessage_nonempty:
  assumes "SerializeMessage h os m ps ld = Inr b"
  shows "b \<noteq> []"
proof (cases "Media.content (media m) = UnsupportedMedia")
  case True
  then show ?thesis
    using assms by (auto simp: SerializeMessage_def UnsupportedNotice_def)
next
  case False
  then obtain vs where mv: "MessageValues h os m ps ld = Inr vs" and b: "b = SerializeKeyValue os vs"
    using assms by (auto simp: SerializeMessage_def split: sum.splits)
  obtain a md where "vs = base_fields h m @ a @ pushUnlessAction h ps m [] @ md
                            @ push ''Text'' (text' m) []"
    using mv by (rule MessageValues_parts)
  then obtain rest where "vs = (''ID'', NumberToString (id' m)) # rest"
    by (simp add: base_fields_def)
  then show ?thesis
    using line_group_nonempty [of "NumberToString (id' m)" "''ID''" os]
    by (simp add: b SerializeKeyValue_Cons NumberToString_nonempty)
qed

lemma SerializeMessages_nonempty:
  "SerializeMessages h os ps ld ms = Inr blocks \<Longrightarrow> ms \<noteq> [] \<Longrightarrow>
     blocks \<noteq> [] \<and> hd blocks \<noteq> []"
  by (cases ms) (auto split: sum.splits dest: SerializeMessage_nonempty)

lemma slice_joined_nonempty:
  assumes "slice_joined h os ld d = Some t" "MessagesSlice.list d \<noteq> []"
  shows "t \<noteq> []"
proof -
  obtain blocks where s: "SerializeMessages h os (peers d) ld (MessagesSlice.list d) = Inr blocks"
    and t: "t = JoinList (kLineBreak os) blocks"
    using assms(1) by (auto simp: slice_joined_def split: sum.splits)
  have "blocks \<noteq> [] \<and> hd blocks \<noteq> []"
    using s assms(2) by (rule SerializeMessages_nonempty)
  then obtain b bs where "blocks = b # bs" "b \<noteq> []"
    by (cases blocks) auto
  then show ?thesis
    by (simp add: t JoinList_joined joined_nonempty)
qed

lemma int32_wrap_add: "int32_wrap (int32_wrap a + b) = int32_wrap (a + b)"
proof -
  define r where "r = (a + 2147483648) mod 4294967296"
  have w: "int32_wrap a = r - 2147483648"
    by (simp add: int32_wrap_def r_def)
  have "int32_wrap (int32_wrap a + b)
          = (int32_wrap a + b + 2147483648) mod 4294967296 - 2147483648"
    by (rule int32_wrap_def)
  also have "int32_wrap a + b + 2147483648 = r + b"
    using w by simp
  also have "(r + b) mod 4294967296 = (a + 2147483648 + b) mod 4294967296"
    unfolding r_def by (rule mod_add_left_eq)
  also have "a + 2147483648 + b = a + b + 2147483648"
    by simp
  also have "(a + b + 2147483648) mod 4294967296 - 2147483648 = int32_wrap (a + b)"
    by (rule int32_wrap_def [symmetric])
  finally show ?thesis .
qed

lemma int32_wrap_id: "- 2147483648 \<le> x \<Longrightarrow> x < 2147483648 \<Longrightarrow> int32_wrap x = x"
  by (simp add: int32_wrap_def)

lemma writeChatSlice_ok:
  assumes "m_chat w = Some chat" "MessagesSlice.list d \<noteq> []"
    "slice_joined h os (internalLinksDomain (m_settings w)) d = Some t"
    "\<forall>block. writeSucceeds h (OutputFile.path chat) block"
  shows "writeChatSlice h os w d =
     Inr (Success,
          w\<lparr> m_messagesCount :=
               int32_wrap (m_messagesCount w + int (length (MessagesSlice.list d))),
             m_chat := Some (chat\<lparr> written := written chat
                               @ (if written chat = [] then t else kLineBreak os @ t) \<rparr>) \<rparr>)"
  using assms
  by (auto simp: writeChatSlice_def slice_joined_def Let_def writeBlock_def OutputFile_empty_def
      split: sum.splits)

lemma writeChatSlices_ok:
  assumes "m_chat w = Some chat" "written chat \<noteq> []"
    "\<forall>d\<in>set ds. MessagesSlice.list d \<noteq> []"
    "map (slice_joined h os (internalLinksDomain (m_settings w))) ds = map Some texts"
    "\<forall>block. writeSucceeds h (OutputFile.path chat) block"
  shows "\<exists>w'. writeChatSlices h os w ds = Inr (Success, w')
      \<and> m_chat w' = Some (chat\<lparr> written := written chat
                                 @ concat (map (\<lambda>t'. kLineBreak os @ t') texts) \<rparr>)
      \<and> m_messagesCount w' =
          (if ds = [] then m_messagesCount w
           else int32_wrap (m_messagesCount w
                            + int (length (concat (map MessagesSlice.list ds)))))"
  using assms
proof (induction ds arbitrary: w chat texts)
  case Nil
  then show ?case by simp
next
  case (Cons d ds)
  obtain t ts where texts: "texts = t # ts"
    and t: "slice_joined h os (internalLinksDomain (m_settings w)) d = Some t"
    and ts: "map (slice_joined h os (internalLinksDomain (m_settings w))) ds = map Some ts"
    using Cons.prems(4) by (cases texts) auto
  define chat1 where "chat1 = chat\<lparr> written := written chat @ kLineBreak os @ t \<rparr>"
  define w1 where "w1 = w\<lparr> m_messagesCount :=
               int32_wrap (m_messagesCount w + int (length (MessagesSlice.list d))),
             m_chat := Some chat1 \<rparr>"
  have step: "writeChatSlice h os w d = Inr (Success, w1)"
    using writeChatSlice_ok [OF Cons.prems(1) _ t Cons.prems(5)] Cons.prems(2,3)
    by (simp add: w1_def chat1_def)
  have p1: "m_chat w1 = Some chat1" by (simp add: w1_def)
  have p2: "written chat1 \<noteq> []" using Cons.prems(2) by (simp add: chat1_def)
  have p3: "\<forall>d\<in>set ds. MessagesSlice.list d \<noteq> []" using Cons.prems(3) by simp
  have p4: "map (slice_joined h os (internalLinksDomain (m_settings w1))) ds = map Some ts"
    using ts by (simp add: w1_def)
  have p5: "\<forall>block. writeSucceeds h (OutputFile.path chat1) block"
    using Cons.prems(5) by (simp add: chat1_def)
  obtain w' where r: "writeChatSlices h os w1 ds = Inr (Success, w')"
    and c: "m_chat w' = Some (chat1\<lparr> written := written chat1
                                 @ concat (map (\<lambda>t'. kLineBreak os @ t') ts) \<rparr>)"
    and n: "m_messagesCount w' =
          (if ds = [] then m_messagesCount w1
           else int32_wrap (m_messagesCount w1
                            + int (length (concat (map MessagesSlice.list ds)))))"
    using Cons.IH [OF p1 p2 p3 p4 p5] by blast
  have cnt: "m_messagesCount w' =
      int32_wrap (m_messagesCount w + int (length (concat (map MessagesSlice.list (d # ds)))))"
    using n by (simp add: w1_def int32_wrap_add add.assoc)
  show ?case
    using step r c cnt by (simp add: texts chat1_def w1_def)
qed

text \<open>
  Claim C6. A sequence of \<^verbatim>\<open>writeChatSlice\<close> calls on a freshly opened chat file, with
  slices that are not empty and can be serialized and with writes that succeed, succeeds
  as a whole. The first slice is written with no line terminator in front; every later
  slice is written behind exactly one line terminator, in front of its joined message
  blocks. The message counter grows by the number of messages, within the 32 bits of an
  \<^verbatim>\<open>int\<close>.
\<close>

theorem slice_separators:
  "m_chat w = Some chat \<Longrightarrow> written chat = [] \<Longrightarrow>
   \<forall>d\<in>set ds. MessagesSlice.list d \<noteq> [] \<Longrightarrow>
   map (slice_joined h os (internalLinksDomain (m_settings w))) ds = map Some texts \<Longrightarrow>
   \<forall>block. writeSucceeds h (OutputFile.path chat) block \<Longrightarrow>
     (case writeChatSlices h os w ds of
        Inl e \<Rightarrow> False
      | Inr (r, w') \<Rightarrow>
          r = Success
          \<and> m_chat w' = Some (chat\<lparr> written := slices_text os texts \<rparr>)
          \<and> m_messagesCount w' =
              (if ds = [] then m_messagesCount w
               else int32_wrap (m_messagesCount w
                                + int (length (concat (map MessagesSlice.list ds))))))"
proof -
  assume chat: "m_chat w = Some chat" and fresh: "written chat = []"
    and ne: "\<forall>d\<in>set ds. MessagesSlice.list d \<noteq> []"
    and js: "map (slice_joined h os (internalLinksDomain (m_settings w))) ds = map Some texts"
    and ok: "\<forall>block. writeSucceeds h (OutputFile.path chat) block"
  show ?thesis
  proof (cases ds)
    case Nil
    then have "texts = []" using js by simp
    then show ?thesis
      using Nil chat fresh by (simp add: slices_text_def)
  next
    case (Cons d rest)
    obtain t ts where texts: "texts = t # ts"
      and t: "slice_joined h os (internalLinksDomain (m_settings w)) d = Some t"
      and ts: "map (slice_joined h os (internalLinksDomain (m_settings w))) rest = map Some ts"
      using js Cons by (cases texts) auto
    have dne: "MessagesSlice.list d \<noteq> []" using ne Cons by simp
    have tne: "t \<noteq> []" using t dne by (rule slice_joined_nonempty)
    define chat1 where "chat1 = chat\<lparr> written := t \<rparr>"
    define w1 where "w1 = w\<lparr> m_messagesCount :=
               int32_wrap (m_messagesCount w + int (length (MessagesSlice.list d))),
             m_chat := Some chat1 \<rparr>"
    have step: "writeChatSlice h os w d = Inr (Success, w1)"
      using writeChatSlice_ok [OF chat dne t ok] fresh by (simp add: w1_def chat1_def)
    have p1: "m_chat w1 = Some chat1" by (simp add: w1_def)
    have p2: "written chat1 \<noteq> []" using tne by (simp add: chat1_def)
    have p3: "\<forall>d\<in>set rest. MessagesSlice.list d \<noteq> []" using ne Cons by simp
    have p4: "map (slice_joined h os (internalLinksDomain (m_settings w1))) rest = map Some ts"
      using ts by (simp add: w1_def)
    have p5: "\<forall>block. writeSucceeds h (OutputFile.path chat1) block"
      using ok by (simp add: chat1_def)
    obtain w' where r: "writeChatSlices h os w1 rest = Inr (Success, w')"
      and c: "m_chat w' = Some (chat1\<lparr> written := written chat1
                                 @ concat (map (\<lambda>t'. kLineBreak os @ t') ts) \<rparr>)"
      and n: "m_messagesCount w' =
          (if rest = [] then m_messagesCount w1
           else int32_wrap (m_messagesCount w1
                            + int (length (concat (map MessagesSlice.list rest)))))"
      using writeChatSlices_ok [OF p1 p2 p3 p4 p5] by blast
    have cnt: "m_messagesCount w' =
      int32_wrap (m_messagesCount w + int (length (concat (map MessagesSlice.list (d # rest)))))"
      using n by (simp add: w1_def int32_wrap_add add.assoc)
    show ?thesis
      using step r c cnt by (simp add: Cons texts slices_text_def chat1_def w1_def)
  qed
qed

lemma example_SerializeMessage:
  "SerializeMessage example_Helpers Other (example_Message \<lparr> id' := 2 \<rparr>) example_peers ld
     = Inr (''ID: 2'' @ [LF] @ ''From: Alice'' @ [LF] @ ''Text: hi'' @ [LF])"
  "SerializeMessage example_Helpers Other (example_Message \<lparr> id' := 1 \<rparr>) example_peers ld
     = Inr (''ID: 1'' @ [LF] @ ''From: Alice'' @ [LF] @ ''Text: hi'' @ [LF])"
proof -
  have n: "NumberToString 2 = ''2''" "NumberToString 1 = ''1''"
    by (simp_all add: NumberToString_def NumberToStringFilled_def decimal.simps digit_char_def)
  have mv: "MessageValues example_Helpers Other (example_Message \<lparr> id' := k \<rparr>) example_peers ld =
     Inr [(''ID'', NumberToString k), (''Date'', []), (''Edited'', []), (''From'', ''Alice''),
          (''Text'', ''hi'')]" for k
    by (simp add: MessageValues_def pushActionContent_def pushUnlessAction_def
        pushMediaContent_def pushReplyToMsgId_def pushFrom_def push_def
        example_wrapUserName NumberToString_nonempty example_Message_def Let_def)
      (simp add: example_Helpers_def)
  have nm: "Media.content (media example_Message) \<noteq> UnsupportedMedia"
    by (simp add: example_Message_def)
  show "SerializeMessage example_Helpers Other (example_Message \<lparr> id' := 2 \<rparr>) example_peers ld
     = Inr (''ID: 2'' @ [LF] @ ''From: Alice'' @ [LF] @ ''Text: hi'' @ [LF])"
    by (simp add: SerializeMessage_def nm mv n SerializeKeyValue_Cons SerializeKeyValue_Nil
        line_group_def kLineBreak_def LF_def)
  show "SerializeMessage example_Helpers Other (example_Message \<lparr> id' := 1 \<rparr>) example_peers ld
     = Inr (''ID: 1'' @ [LF] @ ''From: Alice'' @ [LF] @ ''Text: hi'' @ [LF])"
    by (simp add: SerializeMessage_def nm mv n SerializeKeyValue_Cons SerializeKeyValue_Nil
        line_group_def kLineBreak_def LF_def)
qed

text \<open>Two slices of one message each, written to the message file of the first dialog.\<close>

theorem slice_separators_witness:
  "map_option written
     (m_chat (snd (projr (writeChatSlices example_Helpers Other
        (example_TextWriter \<lparr> m_chat :=
           Some \<lparr> OutputFile.path = ''out/chats/chat_01/messages.txt'', written = [] \<rparr> \<rparr>)
        [example_Slice 1, example_Slice 2]))))
   = Some ((''ID: 1'' @ [LF] @ ''From: Alice'' @ [LF] @ ''Text: hi'' @ [LF])
           @ [LF]
           @ (''ID: 2'' @ [LF] @ ''From: Alice'' @ [LF] @ ''Text: hi'' @ [LF]))
   \<and> m_messagesCount (snd (projr (writeChatSlices example_Helpers Other
        (example_TextWriter \<lparr> m_chat :=
           Some \<lparr> OutputFile.path = ''out/chats/chat_01/messages.txt'', written = [] \<rparr> \<rparr>)
        [example_Slice 1, example_Slice 2]))) = 2"
proof -
  define w where "w = example_TextWriter \<lparr> m_chat :=
           Some \<lparr> OutputFile.path = ''out/chats/chat_01/messages.txt'', written = [] \<rparr> \<rparr>"
  define chat where "chat = \<lparr> OutputFile.path = ''out/chats/chat_01/messages.txt'', written = [] \<rparr>"
  define t1 where "t1 = ''ID: 1'' @ [LF] @ ''From: Alice'' @ [LF] @ ''Text: hi'' @ [LF]"
  define t2 where "t2 = ''ID: 2'' @ [LF] @ ''From: Alice'' @ [LF] @ ''Text: hi'' @ [LF]"
  have a: "m_chat w = Some chat" by (simp add: w_def chat_def)
  have b: "written chat = []" by (simp add: chat_def)
  have c: "\<forall>d\<in>set [example_Slice 1, example_Slice 2]. MessagesSlice.list d \<noteq> []"
    by (simp add: example_Slice_def)
  have d: "map (slice_joined example_Helpers Other (internalLinksDomain (m_settings w)))
             [example_Slice 1, example_Slice 2] = map Some [t1, t2]"
    by (simp add: slice_joined_def example_Slice_def example_SerializeMessage JoinList_def
        t1_def t2_def)
  have e: "\<forall>block. writeSucceeds example_Helpers (OutputFile.path chat) block"
    by (simp add: example_Helpers_def)
  note t = slice_separators [OF a b c d e]
  obtain r w' where res: "writeChatSlices example_Helpers Other w [example_Slice 1, example_Slice 2]
      = Inr (r, w')"
    using t by (auto split: sum.splits)
  have "map_option written (m_chat w') = Some (t1 @ [LF] @ t2)"
    using t res by (simp add: slices_text_def kLineBreak_def chat_def)
  moreover have "m_messagesCount w' = 2"
    using t res
    by (simp add: w_def example_TextWriter_def example_Slice_def int32_wrap_id)
  ultimately show ?thesis
    using res by (simp add: w_def t1_def t2_def)
qed

end
